theory Spec2Isabelle
  imports Main "HOL-Library.Sublist"
begin

section \<open>Folder URL ingestion: the data model\<close>

text \<open>
  The development embeds \<^verbatim>\<open>app/url_ingester.py\<close>: the class \<^verbatim>\<open>FolderWatcherInfo\<close>
  (its constructor and \<^verbatim>\<open>get_urls\<close>) and the polling loop \<^verbatim>\<open>folder_watcher\<close>.

  Everything the Python does beyond returning a value is explicit. An exception is a
  value of type \<open>exn\<close>; a block that may raise returns the state it reached together
  with \<open>exn option\<close> (\<open>Some e\<close>: the block was left by raising \<open>e\<close>). Only instances
  of \<^verbatim>\<open>Exception\<close> are modelled, which is what \<^verbatim>\<open>except Exception\<close> catches;
  \<^verbatim>\<open>KeyboardInterrupt\<close> and \<^verbatim>\<open>SystemExit\<close> end the hosting process and are outside
  the model. The logging functions of \<^verbatim>\<open>ff_logging\<close> are taken to return normally.
\<close>

datatype exn =
    ValueError string
  | FileNotFoundError
  | FileExistsError
  | NotADirectoryError
  | PermissionError
  | OSError string
  | OverflowError
  | UnicodeDecodeError
  | Exception string

text \<open>
  \<^verbatim>\<open>FanficInfo\<close> is built by \<^verbatim>\<open>regex_parsing.generate_FanficInfo_from_url\<close>; the watcher
  reads its attributes \<^verbatim>\<open>url\<close> (the normalised URL) and \<^verbatim>\<open>site\<close>.
\<close>

record FanficInfo =
  url :: string
  site :: string

text \<open>
  The messages passed to \<^verbatim>\<open>ff_logging.log\<close> and \<^verbatim>\<open>ff_logging.log_debug\<close>, one
  constructor per f-string of the source, holding the values the f-string interpolates.
\<close>

datatype log_msg =
    StartingFolderWatcher string      \<comment> \<open>\<^verbatim>\<open>Starting folder watcher on: {folder_path}\<close>\<close>
  | CheckInterval int                 \<comment> \<open>\<^verbatim>\<open>Check interval: {sleep_time} seconds\<close>\<close>
  | FFNetProcessing bool              \<comment> \<open>\<^verbatim>\<open>FFNet processing: disabled/enabled\<close>, \<open>True\<close> for disabled\<close>
  | FoundURL string string            \<comment> \<open>\<^verbatim>\<open>Found URL in {url_file.name}: {url}\<close>\<close>
  | RemovedFile string                \<comment> \<open>\<^verbatim>\<open>Removed processed file: {url_file.name}\<close>\<close>
  | ErrorProcessingFile string exn    \<comment> \<open>\<^verbatim>\<open>Error processing {url_file}: {e}\<close>\<close>
  | IdentifiedSite string string      \<comment> \<open>\<^verbatim>\<open>Identified site for {url}: {fanfic.site}\<close>\<close>
  | FFNetNotificationSent string      \<comment> \<open>\<^verbatim>\<open>FFNet notification sent: {url}\<close>\<close>
  | QueuedURL string string           \<comment> \<open>\<^verbatim>\<open>Queued URL for {fanfic.site}: {url}\<close>\<close>
  | NoQueueAvailable string           \<comment> \<open>\<^verbatim>\<open>No queue available for site: {fanfic.site}\<close>\<close>
  | ErrorProcessingURL string exn     \<comment> \<open>\<^verbatim>\<open>Error processing URL {url}: {e}\<close>\<close>
  | ErrorInLoop exn                   \<comment> \<open>\<^verbatim>\<open>Error in folder watcher loop: {e}\<close>\<close>

text \<open>
  What the watcher does to the outside, in the order it does it. \<open>SendNotification\<close>
  records the call of \<^verbatim>\<open>notification_info.send_notification\<close> with its three
  arguments (the call is made whether or not it then raises). \<open>QueuePut q f\<close> records
  that \<^verbatim>\<open>put(f)\<close> on the queue object \<open>q\<close> returned, so \<open>f\<close> is on that queue; a
  \<^verbatim>\<open>put\<close> that raises leaves the queue as it was and records nothing.
\<close>

datatype event =
    Log log_msg
  | LogDebug log_msg
  | SendNotification string string string
  | QueuePut nat FanficInfo
  | Sleep int

text \<open>
  A directory entry of the watched folder. \<open>read_result\<close> is what
  \<^verbatim>\<open>open(url_file, 'r', encoding='utf-8')\<close> followed by \<^verbatim>\<open>f.read()\<close> gives: the decoded
  text, or the exception raised (the entry is a directory, is not valid UTF-8, may not
  be read). \<open>unlink_error\<close> is \<open>Some e\<close> when \<^verbatim>\<open>url_file.unlink()\<close> raises \<open>e\<close>.
\<close>

datatype url_file = File (read_result: "exn + string") (unlink_error: "exn option")

text \<open>
  The state the watcher works on: the entries of the watched folder in the order a scan
  lists them (names are unique in a directory), the exception a scan of the folder
  raises if it raises one, and the trace of events so far.
\<close>

record world =
  scandir_error :: "exn option"
  folder :: "(string \<times> url_file) list"
  trace :: "event list"

definition emit :: "event \<Rightarrow> world \<Rightarrow> world" where
  "emit ev w = w\<lparr>trace := trace w @ [ev]\<rparr>"

definition ff_log :: "log_msg \<Rightarrow> world \<Rightarrow> world" where
  "ff_log m w = emit (Log m) w"

definition ff_log_debug :: "log_msg \<Rightarrow> world \<Rightarrow> world" where
  "ff_log_debug m w = emit (LogDebug m) w"

text \<open>
  The attributes of a \<^verbatim>\<open>FolderWatcherInfo\<close> object. \<open>sleep_time\<close> is a Python integer.
\<close>

record FolderWatcherInfo =
  folder_path :: string
  sleep_time :: int
  ffnet_disable :: bool

section \<open>The extractor: \<^verbatim>\<open>FolderWatcherInfo.get_urls\<close>\<close>

text \<open>
  \<^verbatim>\<open>str.strip()\<close> removes leading and trailing white space. A \<open>char\<close> stands for a
  code point below 256; of these Python counts as white space 0x09 to 0x0D, 0x1C to
  0x1F, 0x20, 0x85 and 0xA0.
\<close>

definition is_space :: "char \<Rightarrow> bool" where
  "is_space c = ((of_char c :: nat) \<in> {9, 10, 11, 12, 13, 28, 29, 30, 31, 32, 133, 160})"

definition strip :: "string \<Rightarrow> string" where
  "strip s = rev (dropWhile is_space (rev (dropWhile is_space s)))"

text \<open>\<^verbatim>\<open>folder_path.glob("*.url")\<close> keeps the names that end in \<^verbatim>\<open>.url\<close>.\<close>

definition glob_url :: "string \<Rightarrow> bool" where
  "glob_url name = (4 \<le> length name \<and> drop (length name - 4) name = ''.url'')"

text \<open>Opening and reading a file by name; a name that is not in the folder raises.\<close>

definition read_text :: "string \<Rightarrow> world \<Rightarrow> exn + string" where
  "read_text name w =
     (case map_of (folder w) name of
        None \<Rightarrow> Inl FileNotFoundError
      | Some f \<Rightarrow> read_result f)"

definition unlink :: "string \<Rightarrow> world \<Rightarrow> world \<times> exn option" where
  "unlink name w =
     (case map_of (folder w) name of
        None \<Rightarrow> (w, Some FileNotFoundError)
      | Some f \<Rightarrow>
          (case unlink_error f of
             Some e \<Rightarrow> (w, Some e)
           | None \<Rightarrow> (w\<lparr>folder := filter (\<lambda>(n, g). n \<noteq> name) (folder w)\<rparr>, None)))"

text \<open>
  The \<^verbatim>\<open>try\<close> block of the loop over the files (lines 236 to 246). The list \<open>urls\<close>
  is mutated in place, so an append made before an exception stays.
\<close>

definition file_try :: "string \<Rightarrow> string list \<Rightarrow> world \<Rightarrow> (world \<times> string list) \<times> exn option" where
  "file_try name urls w =
     (case read_text name w of
        Inl e \<Rightarrow> ((w, urls), Some e)
      | Inr content \<Rightarrow>
          (let u = strip content;
               w1 = (if u \<noteq> [] then ff_log_debug (FoundURL name u) w else w);
               urls1 = (if u \<noteq> [] then urls @ [u] else urls)
           in (case unlink name w1 of
                 (w2, Some e) \<Rightarrow> ((w2, urls1), Some e)
               | (w2, None) \<Rightarrow> ((ff_log_debug (RemovedFile name) w2, urls1), None))))"

text \<open>One iteration: the \<^verbatim>\<open>try\<close> block and its \<^verbatim>\<open>except Exception\<close> handler, which logs.\<close>

definition file_iteration :: "string \<Rightarrow> string list \<Rightarrow> world \<Rightarrow> (world \<times> string list) \<times> exn option" where
  "file_iteration name urls w =
     (case file_try name urls w of
        ((w1, urls1), Some e) \<Rightarrow> ((ff_log_debug (ErrorProcessingFile name e) w1, urls1), None)
      | ((w1, urls1), None) \<Rightarrow> ((w1, urls1), None))"

text \<open>
  The \<^verbatim>\<open>for url_file in url_files\<close> loop. An exception that leaves an iteration would
  leave the loop.
\<close>

fun for_url_files :: "string list \<Rightarrow> string list \<Rightarrow> world \<Rightarrow> (world \<times> string list) \<times> exn option" where
  "for_url_files [] urls w = ((w, urls), None)"
| "for_url_files (name # names) urls w =
     (case file_iteration name urls w of
        ((w1, urls1), Some e) \<Rightarrow> ((w1, urls1), Some e)
      | ((w1, urls1), None) \<Rightarrow> for_url_files names urls1 w1)"

text \<open>
  \<^verbatim>\<open>get_urls\<close>: the scan lists the folder once, before the first file is processed; a
  scan that raises leaves \<^verbatim>\<open>get_urls\<close> with that exception.
\<close>

definition get_urls :: "world \<Rightarrow> world \<times> (exn + string list)" where
  "get_urls w =
     (case scandir_error w of
        Some e \<Rightarrow> (w, Inl e)
      | None \<Rightarrow>
          (let url_files = filter glob_url (map fst (folder w))
           in (case for_url_files url_files [] w of
                 ((w1, urls), Some e) \<Rightarrow> (w1, Inl e)
               | ((w1, urls), None) \<Rightarrow> (w1, Inr urls))))"

section \<open>The dispatcher and the loop: \<^verbatim>\<open>folder_watcher\<close>\<close>

text \<open>
  The collaborators of \<^verbatim>\<open>folder_watcher\<close> are parameters.
  \<^item> \<open>classify\<close> is \<^verbatim>\<open>regex_parsing.generate_FanficInfo_from_url\<close>: it returns a
    \<^verbatim>\<open>FanficInfo\<close> or raises.
  \<^item> \<open>notification_info\<close> is \<open>None\<close> for Python's \<^verbatim>\<open>None\<close> (falsy) and \<open>Some n\<close>
    for a notifier object (truthy), where \<open>n title body tag\<close> is the outcome of
    \<^verbatim>\<open>send_notification(title, body, tag)\<close>: \<open>None\<close> when it returns, \<open>Some e\<close> when
    it raises \<open>e\<close>.
  \<^item> \<open>queues\<close> is the dictionary from site names to its values. A value is Python's
    \<^verbatim>\<open>None\<close> or a queue object, identified by a number (two keys may hold the same
    object) and carrying the exception its \<^verbatim>\<open>put\<close> raises, if it raises.
\<close>

type_synonym classifier = "string \<Rightarrow> exn + FanficInfo"

type_synonym notifier = "string \<Rightarrow> string \<Rightarrow> string \<Rightarrow> exn option"

datatype qvalue = PyNone | Queue nat "exn option"

type_synonym queue_dict = "string \<rightharpoonup> qvalue"

text \<open>\<^verbatim>\<open>queues.get(key)\<close> gives \<^verbatim>\<open>None\<close> for a key that is not in the dictionary.\<close>

definition dict_get :: "queue_dict \<Rightarrow> string \<Rightarrow> qvalue" where
  "dict_get d k = (case d k of None \<Rightarrow> PyNone | Some v \<Rightarrow> v)"

text \<open>The truth value of a dictionary value: \<^verbatim>\<open>None\<close> is falsy, a queue object truthy.\<close>

fun truthy :: "qvalue \<Rightarrow> bool" where
  "truthy PyNone = False"
| "truthy (Queue q err) = True"

text \<open>The \<^verbatim>\<open>try\<close> block of the loop over the URLs (lines 311 to 337).\<close>

definition url_try ::
  "classifier \<Rightarrow> FolderWatcherInfo \<Rightarrow> notifier option \<Rightarrow> queue_dict \<Rightarrow> string \<Rightarrow> world \<Rightarrow> world \<times> exn option" where
  "url_try classify folder_info notification_info queues u w =
     (case classify u of
        Inl e \<Rightarrow> (w, Some e)
      | Inr fanfic \<Rightarrow>
          (let w1 = ff_log_debug (IdentifiedSite u (site fanfic)) w
           in if site fanfic = ''ffnet'' \<and> ffnet_disable folder_info then
                (case notification_info of
                   None \<Rightarrow> (w1, None)
                 | Some n \<Rightarrow>
                     (let w2 = emit (SendNotification ''New Fanfiction Download'' (url fanfic) (site fanfic)) w1
                      in (case n ''New Fanfiction Download'' (url fanfic) (site fanfic) of
                            Some e \<Rightarrow> (w2, Some e)
                          | None \<Rightarrow> (ff_log (FFNetNotificationSent u) w2, None))))
              else
                (let target_queue = dict_get queues (site fanfic);
                     target_queue = (if \<not> truthy target_queue then dict_get queues ''other'' else target_queue)
                 in (case target_queue of
                       Queue q err \<Rightarrow>
                         (case err of
                            Some e \<Rightarrow> (w1, Some e)
                          | None \<Rightarrow> (ff_log (QueuedURL (site fanfic) u) (emit (QueuePut q fanfic) w1), None))
                     | PyNone \<Rightarrow> (ff_log_debug (NoQueueAvailable (site fanfic)) w1, None)))))"

text \<open>One iteration: the \<^verbatim>\<open>try\<close> block and its \<^verbatim>\<open>except Exception\<close> handler (line 340).\<close>

definition url_iteration ::
  "classifier \<Rightarrow> FolderWatcherInfo \<Rightarrow> notifier option \<Rightarrow> queue_dict \<Rightarrow> string \<Rightarrow> world \<Rightarrow> world \<times> exn option" where
  "url_iteration classify folder_info notification_info queues u w =
     (case url_try classify folder_info notification_info queues u w of
        (w1, Some e) \<Rightarrow> (ff_log_debug (ErrorProcessingURL u e) w1, None)
      | (w1, None) \<Rightarrow> (w1, None))"

text \<open>The \<^verbatim>\<open>for url in urls\<close> loop; an exception leaving an iteration would leave the loop.\<close>

fun for_urls ::
  "classifier \<Rightarrow> FolderWatcherInfo \<Rightarrow> notifier option \<Rightarrow> queue_dict \<Rightarrow> string list \<Rightarrow> world \<Rightarrow> world \<times> exn option" where
  "for_urls classify folder_info notification_info queues [] w = (w, None)"
| "for_urls classify folder_info notification_info queues (u # us) w =
     (case url_iteration classify folder_info notification_info queues u w of
        (w1, Some e) \<Rightarrow> (w1, Some e)
      | (w1, None) \<Rightarrow> for_urls classify folder_info notification_info queues us w1)"

text \<open>The outer \<^verbatim>\<open>try\<close> block of one pass of \<^verbatim>\<open>while True\<close> (lines 305 to 340).\<close>

definition cycle_try ::
  "classifier \<Rightarrow> FolderWatcherInfo \<Rightarrow> notifier option \<Rightarrow> queue_dict \<Rightarrow> world \<Rightarrow> world \<times> exn option" where
  "cycle_try classify folder_info notification_info queues w =
     (case get_urls w of
        (w1, Inl e) \<Rightarrow> (w1, Some e)
      | (w1, Inr urls) \<Rightarrow> for_urls classify folder_info notification_info queues urls w1)"

text \<open>
  \<^verbatim>\<open>time.sleep(secs)\<close> raises \<^verbatim>\<open>ValueError\<close> for a negative argument. For other
  arguments it sleeps or raises as the platform decides (CPython on Linux raises
  \<^verbatim>\<open>OverflowError\<close> when the interval does not fit its clock type and \<^verbatim>\<open>OSError\<close> when
  the deadline does not): \<open>platform_sleep secs\<close> is \<open>Some e\<close> when the call raises \<open>e\<close>.
  While the watcher sleeps other processes change the folder: \<open>ext\<close> maps the scan
  error and the entries before the sleep to those after it.
\<close>

type_synonym sleeper = "int \<Rightarrow> exn option"

type_synonym outside = "exn option \<times> (string \<times> url_file) list \<Rightarrow> exn option \<times> (string \<times> url_file) list"

definition time_sleep :: "sleeper \<Rightarrow> outside \<Rightarrow> int \<Rightarrow> world \<Rightarrow> world \<times> exn option" where
  "time_sleep platform_sleep ext secs w =
     (if secs < 0 then (w, Some (ValueError ''sleep length must be non-negative''))
      else (case platform_sleep secs of
              Some e \<Rightarrow> (w, Some e)
            | None \<Rightarrow>
                (let w1 = emit (Sleep secs) w;
                     after = ext (scandir_error w1, folder w1)
                 in (w1\<lparr>scandir_error := fst after, folder := snd after\<rparr>, None))))"

text \<open>
  One pass of the body of \<^verbatim>\<open>while True\<close>: the \<^verbatim>\<open>try\<close> block, its handler (line 343),
  then the sleep, which is outside the \<^verbatim>\<open>try\<close>.
\<close>

definition cycle ::
  "classifier \<Rightarrow> sleeper \<Rightarrow> outside \<Rightarrow> FolderWatcherInfo \<Rightarrow> notifier option \<Rightarrow> queue_dict \<Rightarrow> world
     \<Rightarrow> world \<times> exn option" where
  "cycle classify platform_sleep ext folder_info notification_info queues w =
     (let w2 = (case cycle_try classify folder_info notification_info queues w of
                  (w1, Some e) \<Rightarrow> ff_log_debug (ErrorInLoop e) w1
                | (w1, None) \<Rightarrow> w1)
      in time_sleep platform_sleep ext (sleep_time folder_info) w2)"

text \<open>
  \<^verbatim>\<open>while True\<close> has no exit of its own: it is left only by an exception. \<open>while_true n\<close>
  runs at most \<open>n\<close> passes and returns \<open>None\<close> when the loop is still running after them,
  \<open>Some e\<close> when a pass left it by raising \<open>e\<close>.
\<close>

fun while_true ::
  "nat \<Rightarrow> classifier \<Rightarrow> sleeper \<Rightarrow> outside \<Rightarrow> FolderWatcherInfo \<Rightarrow> notifier option \<Rightarrow> queue_dict \<Rightarrow> world
     \<Rightarrow> world \<times> exn option" where
  "while_true 0 classify platform_sleep ext folder_info notification_info queues w = (w, None)"
| "while_true (Suc n) classify platform_sleep ext folder_info notification_info queues w =
     (case cycle classify platform_sleep ext folder_info notification_info queues w of
        (w1, Some e) \<Rightarrow> (w1, Some e)
      | (w1, None) \<Rightarrow> while_true n classify platform_sleep ext folder_info notification_info queues w1)"

text \<open>\<^verbatim>\<open>folder_watcher\<close>, run for \<open>n\<close> passes of its loop: three log lines, then the loop.\<close>

definition folder_watcher ::
  "nat \<Rightarrow> classifier \<Rightarrow> sleeper \<Rightarrow> outside \<Rightarrow> FolderWatcherInfo \<Rightarrow> notifier option \<Rightarrow> queue_dict \<Rightarrow> world
     \<Rightarrow> world \<times> exn option" where
  "folder_watcher n classify platform_sleep ext folder_info notification_info queues w =
     while_true n classify platform_sleep ext folder_info notification_info queues
       (ff_log (FFNetProcessing (ffnet_disable folder_info))
         (ff_log (CheckInterval (sleep_time folder_info))
           (ff_log (StartingFolderWatcher (folder_path folder_info)) w)))"

section \<open>The constructor: \<^verbatim>\<open>FolderWatcherInfo.__init__\<close>\<close>












section \<open>Observing a run\<close>

text \<open>
  The events of one iteration of the loop over the URLs are read off a run of that
  iteration from a state with an empty trace; \<open>url_iteration_trace\<close> below shows that an
  iteration started in any state appends exactly these events and changes nothing else.
\<close>

definition no_events :: world where
  "no_events = \<lparr>scandir_error = None, folder = [], trace = []\<rparr>"

definition url_events ::
  "classifier \<Rightarrow> FolderWatcherInfo \<Rightarrow> notifier option \<Rightarrow> queue_dict \<Rightarrow> string \<Rightarrow> event list" where
  "url_events classify folder_info notification_info queues u =
     trace (fst (url_iteration classify folder_info notification_info queues u no_events))"

text \<open>
  The three outcomes of an item: the notifier was called, the item was put on a queue,
  its drop was logged (no queue for it, or an exception caught by the handler of the
  iteration).
\<close>

fun is_notifier_call :: "event \<Rightarrow> bool" where
  "is_notifier_call (SendNotification title body tag) = True"
| "is_notifier_call ev = False"

fun is_enqueue :: "event \<Rightarrow> bool" where
  "is_enqueue (QueuePut q f) = True"
| "is_enqueue ev = False"

fun is_drop_log :: "event \<Rightarrow> bool" where
  "is_drop_log (LogDebug (NoQueueAvailable s)) = True"
| "is_drop_log (LogDebug (ErrorProcessingURL u e)) = True"
| "is_drop_log ev = False"

definition outcome_count :: "event list \<Rightarrow> nat" where
  "outcome_count evs =
     length (filter is_notifier_call evs) + length (filter is_enqueue evs) + length (filter is_drop_log evs)"

definition override :: "classifier \<Rightarrow> FolderWatcherInfo \<Rightarrow> string \<Rightarrow> bool" where
  "override classify folder_info u =
     (case classify u of Inl e \<Rightarrow> False | Inr fanfic \<Rightarrow> site fanfic = ''ffnet'' \<and> ffnet_disable folder_info)"

definition notifier_raises :: "classifier \<Rightarrow> notifier option \<Rightarrow> string \<Rightarrow> bool" where
  "notifier_raises classify notification_info u =
     (case classify u of
        Inl e \<Rightarrow> False
      | Inr fanfic \<Rightarrow>
          (case notification_info of
             None \<Rightarrow> False
           | Some n \<Rightarrow> n ''New Fanfiction Download'' (url fanfic) (site fanfic) \<noteq> None))"

text \<open>
  A file of the folder is observed in the same way: \<open>alone name f\<close> runs one iteration
  of the loop over the files in a folder that holds this file only.
\<close>

definition alone :: "string \<Rightarrow> url_file \<Rightarrow> (world \<times> string list) \<times> exn option" where
  "alone name f = file_iteration name [] \<lparr>scandir_error = None, folder = [(name, f)], trace = []\<rparr>"

definition file_stays :: "string \<Rightarrow> url_file \<Rightarrow> bool" where
  "file_stays name f = (folder (fst (fst (alone name f))) \<noteq> [])"

definition file_urls :: "string \<Rightarrow> url_file \<Rightarrow> string list" where
  "file_urls name f = snd (fst (alone name f))"

definition file_events :: "string \<Rightarrow> url_file \<Rightarrow> event list" where
  "file_events name f = trace (fst (fst (alone name f)))"

text \<open>
  A delivery is a call of the notifier or a \<^verbatim>\<open>put\<close> that returned; \<open>delivery\<close> is the
  delivery of an item, if it has one.
\<close>

fun is_delivery :: "event \<Rightarrow> bool" where
  "is_delivery (SendNotification title body tag) = True"
| "is_delivery (QueuePut q f) = True"
| "is_delivery ev = False"

definition delivery ::
  "classifier \<Rightarrow> FolderWatcherInfo \<Rightarrow> notifier option \<Rightarrow> queue_dict \<Rightarrow> string \<Rightarrow> event option" where
  "delivery classify folder_info notification_info queues u =
     List.find is_delivery (url_events classify folder_info notification_info queues u)"

fun is_sleep :: "event \<Rightarrow> bool" where
  "is_sleep (Sleep secs) = True"
| "is_sleep ev = False"




section \<open>Auxiliary facts\<close>

lemmas dispatch_defs =
  url_iteration_def url_try_def emit_def ff_log_def ff_log_debug_def no_events_def Let_def

lemma url_iteration_trace:
  "url_iteration c fi ni qs u w = (w\<lparr>trace := trace w @ url_events c fi ni qs u\<rparr>, None)"
  by (simp add: url_events_def dispatch_defs split: sum.splits option.splits qvalue.splits)

lemma for_urls_trace:
  "for_urls c fi ni qs us w = (w\<lparr>trace := trace w @ concat (map (url_events c fi ni qs) us)\<rparr>, None)"
  by (induction us arbitrary: w) (simp_all add: url_iteration_trace)

lemma url_events_classify_error:
  "c u = Inl e \<Longrightarrow> url_events c fi ni qs u = [LogDebug (ErrorProcessingURL u e)]"
  by (simp add: url_events_def dispatch_defs)

lemma url_events_override:
  assumes "c u = Inr fanfic" "site fanfic = ''ffnet''" "ffnet_disable fi"
  shows "url_events c fi ni qs u =
     LogDebug (IdentifiedSite u (site fanfic)) #
     (case ni of
        None \<Rightarrow> []
      | Some n \<Rightarrow>
          [SendNotification ''New Fanfiction Download'' (url fanfic) (site fanfic),
           (case n ''New Fanfiction Download'' (url fanfic) (site fanfic) of
              None \<Rightarrow> Log (FFNetNotificationSent u)
            | Some e \<Rightarrow> LogDebug (ErrorProcessingURL u e))])"
  using assms by (simp add: url_events_def dispatch_defs split: option.splits)

lemma url_events_route:
  assumes "c u = Inr fanfic" "\<not> (site fanfic = ''ffnet'' \<and> ffnet_disable fi)"
  shows "url_events c fi ni qs u =
     LogDebug (IdentifiedSite u (site fanfic)) #
     (case (if \<not> truthy (dict_get qs (site fanfic)) then dict_get qs ''other'' else dict_get qs (site fanfic)) of
        PyNone \<Rightarrow> [LogDebug (NoQueueAvailable (site fanfic))]
      | Queue q err \<Rightarrow>
          (case err of
             None \<Rightarrow> [QueuePut q fanfic, Log (QueuedURL (site fanfic) u)]
           | Some e \<Rightarrow> [LogDebug (ErrorProcessingURL u e)]))"
  using assms by (auto simp add: url_events_def dispatch_defs split: option.splits qvalue.splits)

lemmas file_defs =
  alone_def file_iteration_def file_try_def read_text_def unlink_def emit_def ff_log_debug_def Let_def

lemma file_stays_iff:
  "file_stays name f \<longleftrightarrow> \<not> ((\<exists>content. read_result f = Inr content) \<and> unlink_error f = None)"
  by (cases f) (auto simp add: file_stays_def file_defs split: sum.splits option.splits)

lemma file_urls_eq:
  "file_urls name f =
     (case read_result f of
        Inl e \<Rightarrow> []
      | Inr content \<Rightarrow> (if strip content \<noteq> [] then [strip content] else []))"
  by (cases f) (auto simp add: file_urls_def file_defs split: sum.splits option.splits)

lemma file_events_eq:
  "file_events name f =
     (case read_result f of
        Inl e \<Rightarrow> [LogDebug (ErrorProcessingFile name e)]
      | Inr content \<Rightarrow>
          (if strip content \<noteq> [] then [LogDebug (FoundURL name (strip content))] else []) @
          (case unlink_error f of
             Some e \<Rightarrow> [LogDebug (ErrorProcessingFile name e)]
           | None \<Rightarrow> [LogDebug (RemovedFile name)]))"
  by (cases f) (auto simp add: file_events_def file_defs split: sum.splits option.splits)

lemma file_iteration_char:
  assumes "map_of (folder w) name = Some f"
  shows "file_iteration name urls w =
     ((w\<lparr>folder := (if file_stays name f then folder w else filter (\<lambda>(n, g). n \<noteq> name) (folder w)),
         trace := trace w @ file_events name f\<rparr>,
       urls @ file_urls name f), None)"
  using assms
  by (cases f) (auto simp add: file_stays_def file_urls_def file_events_def file_defs split: sum.splits option.splits)

lemma for_url_files_char:
  assumes "distinct (map fst (folder w))" and "set es \<subseteq> set (folder w)" and "distinct (map fst es)"
  shows "for_url_files (map fst es) urls w =
     ((w\<lparr>folder := filter (\<lambda>(n, f). (n, f) \<in> set es \<longrightarrow> file_stays n f) (folder w),
         trace := trace w @ concat (map (\<lambda>(n, f). file_events n f) es)\<rparr>,
       urls @ concat (map (\<lambda>(n, f). file_urls n f) es)), None)"
  using assms
proof (induction es arbitrary: w urls)
  case Nil
  then show ?case by simp
next
  case (Cons a es)
  obtain n f where a: "a = (n, f)" by (cases a)
  from Cons.prems a have mem: "(n, f) \<in> set (folder w)" by simp
  with Cons.prems(1) have look: "map_of (folder w) n = Some f" by simp
  define w1 where "w1 = w\<lparr>folder := (if file_stays n f then folder w else filter (\<lambda>(m, g). m \<noteq> n) (folder w)),
         trace := trace w @ file_events n f\<rparr>"
  have step: "file_iteration n urls w = ((w1, urls @ file_urls n f), None)"
    using file_iteration_char [OF look] by (simp add: w1_def)
  have fresh: "\<forall>(m, g) \<in> set es. m \<noteq> n"
    using Cons.prems(3) a by (auto simp add: rev_image_eqI)
  have d1: "distinct (map fst (folder w1))"
    using Cons.prems(1) by (simp add: w1_def distinct_map_filter)
  have s1: "set es \<subseteq> set (folder w1)"
    using Cons.prems(2) fresh by (auto simp add: w1_def)
  have d2: "distinct (map fst es)" using Cons.prems(3) by simp
  have uniq: "\<And>g. (n, g) \<in> set (folder w) \<Longrightarrow> g = f"
    using Cons.prems(1) mem by (meson eq_key_imp_eq_value)
  have fold_eq: "filter (\<lambda>(m, g). (m, g) \<in> set es \<longrightarrow> file_stays m g) (folder w1) =
                 filter (\<lambda>(m, g). (m, g) \<in> set (a # es) \<longrightarrow> file_stays m g) (folder w)"
    using fresh uniq by (auto simp add: w1_def a intro!: filter_cong)
  show ?case
    using Cons.IH [OF d1 s1 d2, of "urls @ file_urls n f"] step fold_eq
    by (simp add: a w1_def)
qed


lemma get_urls_char:
  assumes "scandir_error w = None" and "distinct (map fst (folder w))"
  shows "get_urls w =
     (w\<lparr>folder := filter (\<lambda>(n, f). glob_url n \<longrightarrow> file_stays n f) (folder w),
        trace := trace w @ concat (map (\<lambda>(n, f). file_events n f) (filter (\<lambda>(n, f). glob_url n) (folder w)))\<rparr>,
      Inr (concat (map (\<lambda>(n, f). file_urls n f) (filter (\<lambda>(n, f). glob_url n) (folder w)))))"
proof -
  define es where "es = filter (\<lambda>(n, f). glob_url n) (folder w)"
  have names: "filter glob_url (map fst (folder w)) = map fst es"
    by (simp add: es_def filter_map comp_def case_prod_unfold)
  have sub: "set es \<subseteq> set (folder w)" by (auto simp add: es_def)
  have dist: "distinct (map fst es)" using assms(2) by (simp add: es_def distinct_map_filter)
  have keep: "filter (\<lambda>(n, f). (n, f) \<in> set es \<longrightarrow> file_stays n f) (folder w) =
              filter (\<lambda>(n, f). glob_url n \<longrightarrow> file_stays n f) (folder w)"
    by (auto simp add: es_def intro!: filter_cong)
  show ?thesis
    using for_url_files_char [OF assms(2) sub dist, of "[]"] assms(1)
    by (simp add: get_urls_def names keep flip: es_def)
qed

lemma file_iteration_None: "snd (file_iteration name urls w) = None"
  by (simp add: file_iteration_def split: prod.splits option.splits)

lemma for_url_files_None: "snd (for_url_files names urls w) = None"
proof (induction names arbitrary: urls w)
  case Nil
  then show ?case by simp
next
  case (Cons name names)
  then show ?case
    using file_iteration_None [of name urls w]
    by (auto split: prod.splits option.splits)
qed

lemma file_iteration_filter_trace:
  assumes "\<And>m. \<not> P (LogDebug m)"
  shows "filter P (trace (fst (fst (file_iteration name urls w)))) = filter P (trace w)"
  using assms
  by (auto simp add: file_defs split: sum.splits option.splits)

lemma for_url_files_filter_trace:
  assumes "\<And>m. \<not> P (LogDebug m)"
  shows "filter P (trace (fst (fst (for_url_files names urls w)))) = filter P (trace w)"
proof (induction names arbitrary: urls w)
  case Nil
  then show ?case by simp
next
  case (Cons name names)
  obtain w1 urls1 r where it: "file_iteration name urls w = ((w1, urls1), r)"
    by (metis surj_pair)
  have "r = None" using file_iteration_None [of name urls w] it by simp
  moreover have "filter P (trace w1) = filter P (trace w)"
    using file_iteration_filter_trace [of P name urls w, OF assms] it by simp
  ultimately show ?case using it Cons.IH [of urls1 w1] by simp
qed

lemma get_urls_filter_trace:
  assumes "\<And>m. \<not> P (LogDebug m)"
  shows "filter P (trace (fst (get_urls w))) = filter P (trace w)"
proof (cases "scandir_error w")
  case None
  obtain w1 urls r where run: "for_url_files (filter glob_url (map fst (folder w))) [] w = ((w1, urls), r)"
    by (metis surj_pair)
  then have "filter P (trace w1) = filter P (trace w)"
    using for_url_files_filter_trace [of P "filter glob_url (map fst (folder w))" "[]" w, OF assms] by simp
  then show ?thesis using None run by (simp add: get_urls_def split: option.splits)
next
  case (Some e)
  then show ?thesis by (simp add: get_urls_def)
qed

lemma name_gone_iff:
  assumes "distinct (map fst fs)" and "(name, f) \<in> set fs"
  shows "name \<notin> fst ` set (filter (\<lambda>(n, g). P n g) fs) \<longleftrightarrow> \<not> P name f"
proof -
  have u: "\<And>g. (name, g) \<in> set fs \<Longrightarrow> g = f"
    using assms by (meson eq_key_imp_eq_value)
  show ?thesis
  proof
    assume "name \<notin> fst ` set (filter (\<lambda>(n, g). P n g) fs)"
    then have "(name, f) \<notin> set (filter (\<lambda>(n, g). P n g) fs)"
      by (metis fst_conv image_eqI)
    then show "\<not> P name f" using assms(2) by simp
  next
    assume np: "\<not> P name f"
    show "name \<notin> fst ` set (filter (\<lambda>(n, g). P n g) fs)"
    proof
      assume "name \<in> fst ` set (filter (\<lambda>(n, g). P n g) fs)"
      then obtain g where "(name, g) \<in> set fs" and "P name g" by auto
      then show False using u np by blast
    qed
  qed
qed

lemma length_concat_singletons:
  "(\<And>x. x \<in> set xs \<Longrightarrow> length (g x) = 1) \<Longrightarrow> length (concat (map g xs)) = length xs"
  by (induction xs) simp_all

lemma no_url_names_left:
  "filter glob_url (map fst (filter (\<lambda>(n, f). \<not> glob_url n) fs)) = []"
  by (induction fs) auto

lemmas run_defs =
  get_urls_def glob_url_def file_iteration_def file_try_def read_text_def unlink_def
  emit_def ff_log_debug_def strip_def is_space_def Let_def

lemma deliveries_of_url:
  "filter is_delivery (url_events c fi ni qs u) =
     (case delivery c fi ni qs u of None \<Rightarrow> [] | Some ev \<Rightarrow> [ev])"
proof (cases "c u")
  case (Inl e)
  then show ?thesis by (simp add: delivery_def url_events_classify_error)
next
  case (Inr fanfic)
  show ?thesis
  proof (cases "site fanfic = ''ffnet'' \<and> ffnet_disable fi")
    case True
    then show ?thesis
      using Inr url_events_override [of c u fanfic fi ni qs]
      by (simp add: delivery_def split: option.splits)
  next
    case False
    then show ?thesis
      using Inr url_events_route [of c u fanfic fi ni qs]
      by (auto simp add: delivery_def split: option.splits qvalue.splits)
  qed
qed

lemma deliveries_of_batch:
  "filter is_delivery (concat (map (url_events c fi ni qs) us)) = List.map_filter (delivery c fi ni qs) us"
  by (induction us) (simp_all add: deliveries_of_url split: option.splits)

lemma url_events_no_sleep: "filter is_sleep (url_events c fi ni qs u) = []"
proof (cases "c u")
  case (Inl e)
  then show ?thesis by (simp add: url_events_classify_error)
next
  case (Inr fanfic)
  show ?thesis
  proof (cases "site fanfic = ''ffnet'' \<and> ffnet_disable fi")
    case True
    then show ?thesis
      using Inr url_events_override [of c u fanfic fi ni qs] by (simp split: option.splits)
  next
    case False
    then show ?thesis
      using Inr url_events_route [of c u fanfic fi ni qs]
      by (auto split: option.splits qvalue.splits)
  qed
qed

lemma batch_no_sleep: "filter is_sleep (concat (map (url_events c fi ni qs) us)) = []"
  by (induction us) (simp_all add: url_events_no_sleep)

lemma cycle_try_sleeps:
  "filter is_sleep (trace (fst (cycle_try c fi ni qs w))) = filter is_sleep (trace w)"
proof -
  obtain w1 r where g: "get_urls w = (w1, r)" by (cases "get_urls w")
  have t1: "filter is_sleep (trace w1) = filter is_sleep (trace w)"
    using get_urls_filter_trace [of is_sleep w] g by simp
  show ?thesis
  proof (cases r)
    case (Inl e)
    then show ?thesis using g t1 by (simp add: cycle_try_def)
  next
    case (Inr urls)
    then show ?thesis using g t1 by (simp add: cycle_try_def for_urls_trace batch_no_sleep)
  qed
qed

lemma cycle_try_scan_error:
  "scandir_error w = Some e \<Longrightarrow> cycle_try c fi ni qs w = (w, Some e)"
  by (simp add: cycle_try_def get_urls_def)

lemma cycle_exception:
  "snd (cycle c ps ext fi ni qs w) =
     (if sleep_time fi < 0 then Some (ValueError ''sleep length must be non-negative'')
      else ps (sleep_time fi))"
  by (simp add: cycle_def time_sleep_def Let_def split: option.splits)

lemma cycle_trace:
  assumes "0 \<le> sleep_time fi" and "ps (sleep_time fi) = None"
  shows "trace (fst (cycle c ps ext fi ni qs w)) =
           (case cycle_try c fi ni qs w of
              (w1, Some e) \<Rightarrow> trace w1 @ [LogDebug (ErrorInLoop e), Sleep (sleep_time fi)]
            | (w1, None) \<Rightarrow> trace w1 @ [Sleep (sleep_time fi)])"
  using assms
  by (simp add: cycle_def time_sleep_def emit_def ff_log_debug_def Let_def split: prod.splits option.splits)

lemma cycle_try_ok:
  assumes "scandir_error w = None" and "distinct (map fst (folder w))"
  shows "cycle_try c fi ni qs w =
     (w\<lparr>folder := filter (\<lambda>(n, f). glob_url n \<longrightarrow> file_stays n f) (folder w),
        trace := trace w
          @ concat (map (\<lambda>(n, f). file_events n f) (filter (\<lambda>(n, f). glob_url n) (folder w)))
          @ concat (map (url_events c fi ni qs)
              (concat (map (\<lambda>(n, f). file_urls n f) (filter (\<lambda>(n, f). glob_url n) (folder w)))))\<rparr>,
      None)"
  by (simp add: cycle_try_def get_urls_char [OF assms] for_urls_trace)

lemma cycle_runs:
  assumes "0 \<le> sleep_time fi" and "ps (sleep_time fi) = None"
  shows "last (trace (fst (cycle c ps ext fi ni qs w))) = Sleep (sleep_time fi)"
    and "length (filter is_sleep (trace (fst (cycle c ps ext fi ni qs w)))) =
           length (filter is_sleep (trace w)) + 1"
proof -
  obtain w1 r where t: "cycle_try c fi ni qs w = (w1, r)" by (cases "cycle_try c fi ni qs w")
  have s: "filter is_sleep (trace w1) = filter is_sleep (trace w)"
    using cycle_try_sleeps [of c fi ni qs w] t by simp
  show "last (trace (fst (cycle c ps ext fi ni qs w))) = Sleep (sleep_time fi)"
    using t by (cases r) (simp_all add: cycle_trace [where fi = fi and ps = ps, OF assms])
  show "length (filter is_sleep (trace (fst (cycle c ps ext fi ni qs w)))) =
           length (filter is_sleep (trace w)) + 1"
    using t s by (cases r) (simp_all add: cycle_trace [where fi = fi and ps = ps, OF assms])
qed

lemma while_true_runs:
  assumes "0 \<le> sleep_time fi" and "ps (sleep_time fi) = None"
  shows "snd (while_true n c ps ext fi ni qs w) = None
     \<and> length (filter is_sleep (trace (fst (while_true n c ps ext fi ni qs w)))) =
         length (filter is_sleep (trace w)) + n"
proof (induction n arbitrary: w)
  case 0
  then show ?case by simp
next
  case (Suc n)
  obtain w1 r where cy: "cycle c ps ext fi ni qs w = (w1, r)" by (cases "cycle c ps ext fi ni qs w")
  have "r = None" using cycle_exception [of c ps ext fi ni qs w] cy assms by simp
  moreover have "length (filter is_sleep (trace w1)) = length (filter is_sleep (trace w)) + 1"
    using cycle_runs(2) [where fi = fi and ps = ps and c = c and ext = ext and ni = ni and qs = qs and w = w, OF assms] cy by simp
  ultimately show ?case using Suc.IH [of w1] cy by simp
qed

lemma url_iteration_handler:
  "snd (url_try c fi ni qs u w) = Some e \<Longrightarrow>
     url_iteration c fi ni qs u w =
       (ff_log_debug (ErrorProcessingURL u e) (fst (url_try c fi ni qs u w)), None)"
  by (cases "url_try c fi ni qs u w") (simp add: url_iteration_def)































section \<open>Dispatch: outcomes, override and routing\<close>

text \<open>
  With the override taken (site \<^verbatim>\<open>ffnet\<close>, \<^verbatim>\<open>ffnet_disable\<close> set) and no notifier
  handle, an item has none of the three outcomes: the iteration logs the identified
  site and continues. With a notifier whose call raises, the item has two: the call
  and the logged failure.
\<close>

theorem dispatch_outcomes_counterexample:
  "outcome_count
     (url_events (\<lambda>x. Inr \<lparr>url = x, site = ''ffnet''\<rparr>)
        \<lparr>folder_path = ''/watch'', sleep_time = 60, ffnet_disable = True\<rparr>
        None
        [''ffnet'' \<mapsto> Queue 0 None, ''other'' \<mapsto> Queue 1 None]
        ''https://www.fanfiction.net/s/456'') = 0
   \<and> outcome_count
     (url_events (\<lambda>x. Inr \<lparr>url = x, site = ''ffnet''\<rparr>)
        \<lparr>folder_path = ''/watch'', sleep_time = 60, ffnet_disable = True\<rparr>
        (Some (\<lambda>title body tag. Some (Exception ''notification failed'')))
        [''ffnet'' \<mapsto> Queue 0 None, ''other'' \<mapsto> Queue 1 None]
        ''https://www.fanfiction.net/s/456'') = 2"
  by (simp add: outcome_count_def url_events_def dispatch_defs)

text \<open>
  C2, as the code has it. Every item of the batch has exactly one of the three outcomes
  (notifier call, enqueue, logged drop), with two exceptions: under the override with
  no notifier handle it has none, and under the override with a notifier whose call
  raises it has two, the call and the logged failure. No outcome occurs twice.
\<close>

theorem dispatch_outcomes:
  "outcome_count (url_events c fi ni qs u) =
     (if override c fi u \<and> ni = None then 0
      else if override c fi u \<and> notifier_raises c ni u then 2
      else 1)
   \<and> length (filter is_notifier_call (url_events c fi ni qs u)) \<le> 1
   \<and> length (filter is_enqueue (url_events c fi ni qs u)) \<le> 1
   \<and> length (filter is_drop_log (url_events c fi ni qs u)) \<le> 1"
proof (cases "c u")
  case (Inl e)
  then show ?thesis
    by (simp add: url_events_classify_error outcome_count_def override_def)
next
  case (Inr fanfic)
  show ?thesis
  proof (cases "site fanfic = ''ffnet'' \<and> ffnet_disable fi")
    case True
    then show ?thesis
      using Inr url_events_override [of c u fanfic fi ni qs]
      by (simp add: outcome_count_def override_def notifier_raises_def split: option.splits)
  next
    case False
    then show ?thesis
      using Inr url_events_route [of c u fanfic fi ni qs]
      by (auto simp add: outcome_count_def override_def split: option.splits qvalue.splits)
  qed
qed


theorem dispatch_outcomes_witness:
  "outcome_count
     (url_events (\<lambda>x. Inr \<lparr>url = x, site = ''fanfiction.net''\<rparr>)
        \<lparr>folder_path = ''/watch'', sleep_time = 60, ffnet_disable = False\<rparr>
        None
        [''archiveofourown.org'' \<mapsto> Queue 1 None, ''other'' \<mapsto> Queue 2 None]
        ''https://fanfiction.net/s/456'') = 1"
  by (rule conjunct1 [OF dispatch_outcomes, THEN trans]) (simp add: override_def)

text \<open>
  Under the override with no notifier handle nothing is delivered to a notifier.
\<close>

theorem override_exclusive_counterexample:
  "site \<lparr>url = ''https://www.fanfiction.net/s/456'', site = ''ffnet''\<rparr> = ''ffnet''
   \<and> ffnet_disable \<lparr>folder_path = ''/watch'', sleep_time = 60, ffnet_disable = True\<rparr>
   \<and> filter is_notifier_call
       (url_events (\<lambda>x. Inr \<lparr>url = ''https://www.fanfiction.net/s/456'', site = ''ffnet''\<rparr>)
          \<lparr>folder_path = ''/watch'', sleep_time = 60, ffnet_disable = True\<rparr>
          None
          [''ffnet'' \<mapsto> Queue 0 None]
          ''https://m.fanfiction.net/s/456'') = []"
  by (simp add: url_events_def dispatch_defs)

text \<open>
  C3, as the code has it. For an item whose site is \<^verbatim>\<open>ffnet\<close> while \<^verbatim>\<open>ffnet_disable\<close>
  is set, nothing is put on any queue, whatever the destination map holds; and when a
  notifier handle is present the notifier is called once, with the title
  \<^verbatim>\<open>New Fanfiction Download\<close>, the normalised URL as body and the site as tag. With
  no notifier handle the notifier is not called.
\<close>

theorem override_exclusive:
  assumes "c u = Inr fanfic" and "site fanfic = ''ffnet''" and "ffnet_disable fi"
  shows "filter is_enqueue (url_events c fi ni qs u) = []
     \<and> filter is_notifier_call (url_events c fi ni qs u) =
         (case ni of
            None \<Rightarrow> []
          | Some n \<Rightarrow> [SendNotification ''New Fanfiction Download'' (url fanfic) (site fanfic)])"
  using assms by (simp add: url_events_override split: option.splits)

theorem override_exclusive_witness:
  "filter is_enqueue
     (url_events (\<lambda>x. Inr \<lparr>url = ''https://www.fanfiction.net/s/456'', site = ''ffnet''\<rparr>)
        \<lparr>folder_path = ''/watch'', sleep_time = 60, ffnet_disable = True\<rparr>
        (Some (\<lambda>title body tag. None))
        [''ffnet'' \<mapsto> Queue 0 None]
        ''https://m.fanfiction.net/s/456'') = []
   \<and> filter is_notifier_call
     (url_events (\<lambda>x. Inr \<lparr>url = ''https://www.fanfiction.net/s/456'', site = ''ffnet''\<rparr>)
        \<lparr>folder_path = ''/watch'', sleep_time = 60, ffnet_disable = True\<rparr>
        (Some (\<lambda>title body tag. None))
        [''ffnet'' \<mapsto> Queue 0 None]
        ''https://m.fanfiction.net/s/456'') =
     [SendNotification ''New Fanfiction Download'' ''https://www.fanfiction.net/s/456'' ''ffnet'']"
  using override_exclusive
    [where c = "\<lambda>x. Inr \<lparr>url = ''https://www.fanfiction.net/s/456'', site = ''ffnet''\<rparr>"
       and u = "''https://m.fanfiction.net/s/456''"
       and fanfic = "\<lparr>url = ''https://www.fanfiction.net/s/456'', site = ''ffnet''\<rparr>"
       and fi = "\<lparr>folder_path = ''/watch'', sleep_time = 60, ffnet_disable = True\<rparr>"
       and ni = "Some (\<lambda>title body tag. None)"
       and qs = "[''ffnet'' \<mapsto> Queue 0 None]"]
  by simp

text \<open>
  A site that is a key of the destination map may hold \<^verbatim>\<open>None\<close>: the item then goes
  to the queue under \<^verbatim>\<open>other\<close>. It may hold a queue whose \<^verbatim>\<open>put\<close> raises: the item
  is then on no queue.
\<close>

theorem queue_routing_counterexample:
  "''ao3'' \<in> dom [''ao3'' \<mapsto> PyNone, ''other'' \<mapsto> Queue 2 None]
   \<and> filter is_enqueue
       (url_events (\<lambda>x. Inr \<lparr>url = x, site = ''ao3''\<rparr>)
          \<lparr>folder_path = ''/watch'', sleep_time = 60, ffnet_disable = False\<rparr>
          None
          [''ao3'' \<mapsto> PyNone, ''other'' \<mapsto> Queue 2 None]
          ''https://archiveofourown.org/works/123'') =
       [QueuePut 2 \<lparr>url = ''https://archiveofourown.org/works/123'', site = ''ao3''\<rparr>]
   \<and> ''ao3'' \<in> dom [''ao3'' \<mapsto> Queue 1 (Some (ValueError ''Queue is closed'')), ''other'' \<mapsto> Queue 2 None]
   \<and> filter is_enqueue
       (url_events (\<lambda>x. Inr \<lparr>url = x, site = ''ao3''\<rparr>)
          \<lparr>folder_path = ''/watch'', sleep_time = 60, ffnet_disable = False\<rparr>
          None
          [''ao3'' \<mapsto> Queue 1 (Some (ValueError ''Queue is closed'')), ''other'' \<mapsto> Queue 2 None]
          ''https://archiveofourown.org/works/123'') = []"
  by (simp add: url_events_def dispatch_defs dict_get_def)

text \<open>
  C4, as the code has it. For an item not taken by the override: if the destination map
  holds a queue for the site, the item is put on that queue and on no other, unless the
  \<^verbatim>\<open>put\<close> raises, in which case nothing is enqueued and the failure is logged; if the
  map holds no value or \<^verbatim>\<open>None\<close> for the site and a queue for \<^verbatim>\<open>other\<close>, the same
  holds with the queue of \<^verbatim>\<open>other\<close>; if it holds a queue for neither, the drop is
  logged and nothing is enqueued.
\<close>

theorem queue_routing:
  assumes "c u = Inr fanfic" and "\<not> (site fanfic = ''ffnet'' \<and> ffnet_disable fi)"
  shows "(dict_get qs (site fanfic) = Queue q None \<longrightarrow>
            url_events c fi ni qs u =
              [LogDebug (IdentifiedSite u (site fanfic)), QueuePut q fanfic, Log (QueuedURL (site fanfic) u)])
     \<and> (dict_get qs (site fanfic) = Queue q (Some e) \<longrightarrow>
            url_events c fi ni qs u =
              [LogDebug (IdentifiedSite u (site fanfic)), LogDebug (ErrorProcessingURL u e)])
     \<and> (dict_get qs (site fanfic) = PyNone \<and> dict_get qs ''other'' = Queue q None \<longrightarrow>
            url_events c fi ni qs u =
              [LogDebug (IdentifiedSite u (site fanfic)), QueuePut q fanfic, Log (QueuedURL (site fanfic) u)])
     \<and> (dict_get qs (site fanfic) = PyNone \<and> dict_get qs ''other'' = Queue q (Some e) \<longrightarrow>
            url_events c fi ni qs u =
              [LogDebug (IdentifiedSite u (site fanfic)), LogDebug (ErrorProcessingURL u e)])
     \<and> (dict_get qs (site fanfic) = PyNone \<and> dict_get qs ''other'' = PyNone \<longrightarrow>
            url_events c fi ni qs u =
              [LogDebug (IdentifiedSite u (site fanfic)), LogDebug (NoQueueAvailable (site fanfic))])"
  using assms url_events_route [of c u fanfic fi ni qs] by simp

theorem queue_routing_witness:
  "url_events (\<lambda>x. Inr \<lparr>url = x, site = ''archiveofourown.org''\<rparr>)
     \<lparr>folder_path = ''/watch'', sleep_time = 60, ffnet_disable = False\<rparr>
     None
     [''archiveofourown.org'' \<mapsto> Queue 1 None, ''other'' \<mapsto> Queue 2 None]
     ''https://archiveofourown.org/works/123'' =
   [LogDebug (IdentifiedSite ''https://archiveofourown.org/works/123'' ''archiveofourown.org''),
    QueuePut 1 \<lparr>url = ''https://archiveofourown.org/works/123'', site = ''archiveofourown.org''\<rparr>,
    Log (QueuedURL ''archiveofourown.org'' ''https://archiveofourown.org/works/123'')]
   \<and> url_events (\<lambda>x. Inr \<lparr>url = x, site = ''fanfiction.net''\<rparr>)
     \<lparr>folder_path = ''/watch'', sleep_time = 60, ffnet_disable = False\<rparr>
     None
     [''archiveofourown.org'' \<mapsto> Queue 1 None, ''other'' \<mapsto> Queue 2 None]
     ''https://fanfiction.net/s/456'' =
   [LogDebug (IdentifiedSite ''https://fanfiction.net/s/456'' ''fanfiction.net''),
    QueuePut 2 \<lparr>url = ''https://fanfiction.net/s/456'', site = ''fanfiction.net''\<rparr>,
    Log (QueuedURL ''fanfiction.net'' ''https://fanfiction.net/s/456'')]"
  using
    queue_routing [where c = "\<lambda>x. Inr \<lparr>url = x, site = ''archiveofourown.org''\<rparr>"
      and u = "''https://archiveofourown.org/works/123''"
      and fanfic = "\<lparr>url = ''https://archiveofourown.org/works/123'', site = ''archiveofourown.org''\<rparr>"
      and fi = "\<lparr>folder_path = ''/watch'', sleep_time = 60, ffnet_disable = False\<rparr>"
      and ni = None
      and qs = "[''archiveofourown.org'' \<mapsto> Queue 1 None, ''other'' \<mapsto> Queue 2 None]"
      and q = 1 and e = "Exception []"]
    queue_routing [where c = "\<lambda>x. Inr \<lparr>url = x, site = ''fanfiction.net''\<rparr>"
      and u = "''https://fanfiction.net/s/456''"
      and fanfic = "\<lparr>url = ''https://fanfiction.net/s/456'', site = ''fanfiction.net''\<rparr>"
      and fi = "\<lparr>folder_path = ''/watch'', sleep_time = 60, ffnet_disable = False\<rparr>"
      and ni = None
      and qs = "[''archiveofourown.org'' \<mapsto> Queue 1 None, ''other'' \<mapsto> Queue 2 None]"
      and q = 2 and e = "Exception []"]
  by (simp add: dict_get_def)

text \<open>
  For an item taken by the override the destination map is not consulted: with
  \<^verbatim>\<open>None\<close> under the site and a queue under \<^verbatim>\<open>other\<close>, the item is not put on the
  queue of \<^verbatim>\<open>other\<close> and no drop is logged.
\<close>

theorem falsy_destination_counterexample:
  "[''ffnet'' \<mapsto> PyNone, ''other'' \<mapsto> Queue 2 None] ''ffnet'' = Some PyNone
   \<and> url_events (\<lambda>x. Inr \<lparr>url = x, site = ''ffnet''\<rparr>)
       \<lparr>folder_path = ''/watch'', sleep_time = 60, ffnet_disable = True\<rparr>
       (Some (\<lambda>title body tag. None))
       [''ffnet'' \<mapsto> PyNone, ''other'' \<mapsto> Queue 2 None]
       ''https://www.fanfiction.net/s/456'' =
     [LogDebug (IdentifiedSite ''https://www.fanfiction.net/s/456'' ''ffnet''),
      SendNotification ''New Fanfiction Download'' ''https://www.fanfiction.net/s/456'' ''ffnet'',
      Log (FFNetNotificationSent ''https://www.fanfiction.net/s/456'')]
   \<and> url_events (\<lambda>x. Inr \<lparr>url = x, site = ''ffnet''\<rparr>)
       \<lparr>folder_path = ''/watch'', sleep_time = 60, ffnet_disable = True\<rparr>
       None
       [''ffnet'' \<mapsto> PyNone, ''other'' \<mapsto> Queue 2 None]
       ''https://www.fanfiction.net/s/456'' =
     [LogDebug (IdentifiedSite ''https://www.fanfiction.net/s/456'' ''ffnet'')]"
  by (simp add: url_events_def dispatch_defs)

text \<open>
  C10, as the code has it. For an item not taken by the override, when the destination
  map has the classified site as a key and holds \<^verbatim>\<open>None\<close> for it, the \<^verbatim>\<open>try\<close> block
  behaves as if the key were absent: the item is put on the
  queue held under \<^verbatim>\<open>other\<close>, or, when the map holds no queue under \<^verbatim>\<open>other\<close> either,
  the drop is logged; in both cases the block ends without raising and nothing is put
  on the falsy value.
\<close>

theorem falsy_destination:
  assumes "c u = Inr fanfic" and "\<not> (site fanfic = ''ffnet'' \<and> ffnet_disable fi)"
    and "qs (site fanfic) = Some PyNone"
  shows "url_try c fi ni qs u w = url_try c fi ni (qs(site fanfic := None)) u w
     \<and> (dict_get qs ''other'' = Queue q None \<longrightarrow>
          url_try c fi ni qs u w =
            (w\<lparr>trace := trace w @
                [LogDebug (IdentifiedSite u (site fanfic)), QueuePut q fanfic,
                 Log (QueuedURL (site fanfic) u)]\<rparr>, None))
     \<and> (dict_get qs ''other'' = PyNone \<longrightarrow>
          url_try c fi ni qs u w =
            (w\<lparr>trace := trace w @
                [LogDebug (IdentifiedSite u (site fanfic)),
                 LogDebug (NoQueueAvailable (site fanfic))]\<rparr>, None))"
  using assms
  by (auto simp add: url_try_def dict_get_def emit_def ff_log_def ff_log_debug_def Let_def
      split: option.splits qvalue.splits)

theorem falsy_destination_witness:
  "url_try (\<lambda>x. Inr \<lparr>url = x, site = ''ao3''\<rparr>)
     \<lparr>folder_path = ''/watch'', sleep_time = 60, ffnet_disable = True\<rparr>
     None
     [''ao3'' \<mapsto> PyNone, ''other'' \<mapsto> Queue 2 None]
     ''https://archiveofourown.org/works/123''
     \<lparr>scandir_error = None, folder = [], trace = []\<rparr> =
   (\<lparr>scandir_error = None, folder = [],
      trace = [LogDebug (IdentifiedSite ''https://archiveofourown.org/works/123'' ''ao3''),
               QueuePut 2 \<lparr>url = ''https://archiveofourown.org/works/123'', site = ''ao3''\<rparr>,
               Log (QueuedURL ''ao3'' ''https://archiveofourown.org/works/123'')]\<rparr>, None)
   \<and> url_try (\<lambda>x. Inr \<lparr>url = x, site = ''ao3''\<rparr>)
     \<lparr>folder_path = ''/watch'', sleep_time = 60, ffnet_disable = True\<rparr>
     None
     [''ao3'' \<mapsto> PyNone]
     ''https://archiveofourown.org/works/123''
     \<lparr>scandir_error = None, folder = [], trace = []\<rparr> =
   (\<lparr>scandir_error = None, folder = [],
      trace = [LogDebug (IdentifiedSite ''https://archiveofourown.org/works/123'' ''ao3''),
               LogDebug (NoQueueAvailable ''ao3'')]\<rparr>, None)"
  using
    falsy_destination [where c = "\<lambda>x. Inr \<lparr>url = x, site = ''ao3''\<rparr>"
      and u = "''https://archiveofourown.org/works/123''"
      and fanfic = "\<lparr>url = ''https://archiveofourown.org/works/123'', site = ''ao3''\<rparr>"
      and fi = "\<lparr>folder_path = ''/watch'', sleep_time = 60, ffnet_disable = True\<rparr>"
      and ni = None
      and qs = "[''ao3'' \<mapsto> PyNone, ''other'' \<mapsto> Queue 2 None]"
      and q = 2
      and w = "\<lparr>scandir_error = None, folder = [], trace = []\<rparr>", THEN conjunct2]
    falsy_destination [where c = "\<lambda>x. Inr \<lparr>url = x, site = ''ao3''\<rparr>"
      and u = "''https://archiveofourown.org/works/123''"
      and fanfic = "\<lparr>url = ''https://archiveofourown.org/works/123'', site = ''ao3''\<rparr>"
      and fi = "\<lparr>folder_path = ''/watch'', sleep_time = 60, ffnet_disable = True\<rparr>"
      and ni = None
      and qs = "[''ao3'' \<mapsto> PyNone]"
      and q = 2
      and w = "\<lparr>scandir_error = None, folder = [], trace = []\<rparr>", THEN conjunct2]
  by (simp add: dict_get_def)

section \<open>Dispatch: order of delivery\<close>

text \<open>
  C9. Within one cycle the deliveries (notifier calls and successful puts) appear in the
  trace in the order of the batch that \<^verbatim>\<open>get_urls\<close> returned: they are the deliveries
  of the items of the batch, item by item, each item having at most one.
\<close>

theorem dispatch_order:
  assumes "get_urls w = (w1, Inr urls)"
  shows "filter is_delivery (trace (fst (cycle_try c fi ni qs w))) =
           filter is_delivery (trace w) @ List.map_filter (delivery c fi ni qs) urls
     \<and> length (filter is_delivery (url_events c fi ni qs u)) \<le> 1"
proof -
  have "filter is_delivery (trace w1) = filter is_delivery (trace w)"
    using get_urls_filter_trace [of is_delivery w] assms by simp
  then have "filter is_delivery (trace (fst (cycle_try c fi ni qs w))) =
           filter is_delivery (trace w) @ List.map_filter (delivery c fi ni qs) urls"
    using assms by (simp add: cycle_try_def for_urls_trace deliveries_of_batch)
  moreover have "length (filter is_delivery (url_events c fi ni qs u)) \<le> 1"
    by (simp add: deliveries_of_url split: option.splits)
  ultimately show ?thesis by simp
qed

theorem dispatch_order_witness:
  "snd (get_urls
        \<lparr>scandir_error = None,
         folder = [(''a.url'', File (Inr ''https://archiveofourown.org/works/123'') None),
                   (''b.url'', File (Inr ''not a url'') None),
                   (''c.url'', File (Inr ''https://www.fanfiction.net/s/456'') None),
                   (''d.url'', File (Inr ''https://archiveofourown.org/works/789'') None)],
         trace = []\<rparr>) =
     Inr [''https://archiveofourown.org/works/123'', ''not a url'',
          ''https://www.fanfiction.net/s/456'', ''https://archiveofourown.org/works/789'']
   \<and> filter is_delivery (trace (fst (cycle_try
        (\<lambda>x. if x = ''https://www.fanfiction.net/s/456'' then Inr \<lparr>url = x, site = ''ffnet''\<rparr>
            else if x = ''not a url'' then Inl (ValueError ''unparseable'')
            else Inr \<lparr>url = x, site = ''ao3''\<rparr>)
        \<lparr>folder_path = ''/watch'', sleep_time = 60, ffnet_disable = True\<rparr> (Some (\<lambda>title body tag. None)) [''ao3'' \<mapsto> Queue 1 None]
        \<lparr>scandir_error = None,
         folder = [(''a.url'', File (Inr ''https://archiveofourown.org/works/123'') None),
                   (''b.url'', File (Inr ''not a url'') None),
                   (''c.url'', File (Inr ''https://www.fanfiction.net/s/456'') None),
                   (''d.url'', File (Inr ''https://archiveofourown.org/works/789'') None)],
         trace = []\<rparr>))) =
     [QueuePut 1 \<lparr>url = ''https://archiveofourown.org/works/123'', site = ''ao3''\<rparr>,
      SendNotification ''New Fanfiction Download'' ''https://www.fanfiction.net/s/456'' ''ffnet'',
      QueuePut 1 \<lparr>url = ''https://archiveofourown.org/works/789'', site = ''ao3''\<rparr>]"
proof -
  let ?w = "\<lparr>scandir_error = None,
         folder = [(''a.url'', File (Inr ''https://archiveofourown.org/works/123'') None),
                   (''b.url'', File (Inr ''not a url'') None),
                   (''c.url'', File (Inr ''https://www.fanfiction.net/s/456'') None),
                   (''d.url'', File (Inr ''https://archiveofourown.org/works/789'') None)],
         trace = []\<rparr>"
  obtain w1 where w1: "w1 = fst (get_urls ?w)" by simp
  have urls: "snd (get_urls ?w) = Inr [''https://archiveofourown.org/works/123'', ''not a url'',
          ''https://www.fanfiction.net/s/456'', ''https://archiveofourown.org/works/789'']"
    by (simp add: run_defs)
  have g: "get_urls ?w = (w1, Inr [''https://archiveofourown.org/works/123'', ''not a url'',
          ''https://www.fanfiction.net/s/456'', ''https://archiveofourown.org/works/789''])"
    using w1 urls by (metis prod.collapse)
  have "filter is_delivery (trace (fst (cycle_try
        (\<lambda>x. if x = ''https://www.fanfiction.net/s/456'' then Inr \<lparr>url = x, site = ''ffnet''\<rparr>
            else if x = ''not a url'' then Inl (ValueError ''unparseable'')
            else Inr \<lparr>url = x, site = ''ao3''\<rparr>)
        \<lparr>folder_path = ''/watch'', sleep_time = 60, ffnet_disable = True\<rparr> (Some (\<lambda>title body tag. None)) [''ao3'' \<mapsto> Queue 1 None] ?w))) =
     [QueuePut 1 \<lparr>url = ''https://archiveofourown.org/works/123'', site = ''ao3''\<rparr>,
      SendNotification ''New Fanfiction Download'' ''https://www.fanfiction.net/s/456'' ''ffnet'',
      QueuePut 1 \<lparr>url = ''https://archiveofourown.org/works/789'', site = ''ao3''\<rparr>]"
    by (rule dispatch_order [OF g, THEN conjunct1, THEN trans])
       (simp add: delivery_def url_events_def dispatch_defs dict_get_def)
  then show ?thesis using urls by blast
qed

section \<open>Extraction: deletion, idempotence and fault isolation\<close>

text \<open>
  A file that holds only white space is read, yields no URL and is deleted. A file whose
  \<^verbatim>\<open>unlink\<close> raises stays in the folder, yet the list returned holds its URL, which
  was appended before the \<^verbatim>\<open>unlink\<close>; the file is read again on the next pass.
\<close>

theorem get_urls_deletion_counterexample:
  "get_urls \<lparr>scandir_error = None,
             folder = [(''blank.url'', File (Inr '' \<newline>'') None)],
             trace = []\<rparr> =
     (\<lparr>scandir_error = None, folder = [], trace = [LogDebug (RemovedFile ''blank.url'')]\<rparr>, Inr [])
   \<and> get_urls \<lparr>scandir_error = None,
             folder = [(''story.url'', File (Inr ''https://archiveofourown.org/works/123'') (Some PermissionError))],
             trace = []\<rparr> =
     (\<lparr>scandir_error = None,
        folder = [(''story.url'', File (Inr ''https://archiveofourown.org/works/123'') (Some PermissionError))],
        trace = [LogDebug (FoundURL ''story.url'' ''https://archiveofourown.org/works/123''),
                 LogDebug (ErrorProcessingFile ''story.url'' PermissionError)]\<rparr>,
      Inr [''https://archiveofourown.org/works/123''])"
  by (simp add: run_defs)

text \<open>
  C1, as the code has it. For every \<^verbatim>\<open>.url\<close> file of the scanned folder, the file is
  deleted if and only if it was read and its \<^verbatim>\<open>unlink\<close> did not raise, whether or not
  its content is empty after stripping. The list returned is made of what each file
  contributes, in scan order: a file whose read raises contributes nothing (and stays),
  and a file that is read and deleted contributes its stripped content when that is not
  empty and nothing otherwise, so a file of white space only is deleted and contributes
  no URL. What a file contributes whose \<^verbatim>\<open>unlink\<close> raises is not part of the
  statement.
\<close>

theorem get_urls_deletion:
  assumes "scandir_error w = None" and "distinct (map fst (folder w))"
    and "(name, f) \<in> set (folder w)" and "glob_url name"
  shows "(name \<notin> fst ` set (folder (fst (get_urls w)))
            \<longleftrightarrow> (\<exists>content. read_result f = Inr content) \<and> unlink_error f = None)
     \<and> snd (get_urls w) =
         Inr (concat (map (\<lambda>(n, g). file_urls n g) (filter (\<lambda>(n, g). glob_url n) (folder w))))
     \<and> (\<forall>e. read_result f = Inl e \<longrightarrow> file_urls name f = [])
     \<and> (\<forall>content. read_result f = Inr content \<and> unlink_error f = None \<longrightarrow>
           file_urls name f = (if strip content \<noteq> [] then [strip content] else []))"
proof -
  note char = get_urls_char [OF assms(1) assms(2)]
  have left: "folder (fst (get_urls w)) = filter (\<lambda>(n, g). glob_url n \<longrightarrow> file_stays n g) (folder w)"
    by (simp add: char)
  have "name \<notin> fst ` set (folder (fst (get_urls w))) \<longleftrightarrow> \<not> (glob_url name \<longrightarrow> file_stays name f)"
    unfolding left by (rule name_gone_iff [OF assms(2) assms(3)])
  then have gone: "name \<notin> fst ` set (folder (fst (get_urls w)))
            \<longleftrightarrow> (\<exists>content. read_result f = Inr content) \<and> unlink_error f = None"
    using assms(4) by (simp add: file_stays_iff)
  have urls: "snd (get_urls w) =
         Inr (concat (map (\<lambda>(n, g). file_urls n g) (filter (\<lambda>(n, g). glob_url n) (folder w))))"
    by (simp add: char)
  have unread: "\<forall>e. read_result f = Inl e \<longrightarrow> file_urls name f = []"
    by (simp add: file_urls_eq)
  have consumed: "\<forall>content. read_result f = Inr content \<and> unlink_error f = None \<longrightarrow>
           file_urls name f = (if strip content \<noteq> [] then [strip content] else [])"
    by (simp add: file_urls_eq)
  show ?thesis using gone urls unread consumed by blast
qed

theorem get_urls_deletion_witness:
  "''blank.url'' \<notin> fst ` set (folder (fst (get_urls
        \<lparr>scandir_error = None,
         folder = [(''blank.url'', File (Inr '' \<newline>'') None),
                   (''locked.url'', File (Inl PermissionError) None),
                   (''story.url'', File (Inr '' https://archiveofourown.org/works/123\<newline>'') None),
                   (''notes.txt'', File (Inr ''keep'') None)],
         trace = []\<rparr>)))
   \<and> ''locked.url'' \<in> fst ` set (folder (fst (get_urls
        \<lparr>scandir_error = None,
         folder = [(''blank.url'', File (Inr '' \<newline>'') None),
                   (''locked.url'', File (Inl PermissionError) None),
                   (''story.url'', File (Inr '' https://archiveofourown.org/works/123\<newline>'') None),
                   (''notes.txt'', File (Inr ''keep'') None)],
         trace = []\<rparr>)))
   \<and> snd (get_urls
        \<lparr>scandir_error = None,
         folder = [(''blank.url'', File (Inr '' \<newline>'') None),
                   (''locked.url'', File (Inl PermissionError) None),
                   (''story.url'', File (Inr '' https://archiveofourown.org/works/123\<newline>'') None),
                   (''notes.txt'', File (Inr ''keep'') None)],
         trace = []\<rparr>) = Inr [''https://archiveofourown.org/works/123'']"
proof -
  let ?w = "\<lparr>scandir_error = None,
         folder = [(''blank.url'', File (Inr '' \<newline>'') None),
                   (''locked.url'', File (Inl PermissionError) None),
                   (''story.url'', File (Inr '' https://archiveofourown.org/works/123\<newline>'') None),
                   (''notes.txt'', File (Inr ''keep'') None)],
         trace = []\<rparr>"
  have a: "scandir_error ?w = None" by simp
  have b: "distinct (map fst (folder ?w))" by simp
  have c1: "(''blank.url'', File (Inr '' \<newline>'') None) \<in> set (folder ?w)" by simp
  have c2: "(''locked.url'', File (Inl PermissionError) None) \<in> set (folder ?w)" by simp
  have d1: "glob_url ''blank.url''" by (simp add: glob_url_def)
  have d2: "glob_url ''locked.url''" by (simp add: glob_url_def)
  have e1: "''blank.url'' \<notin> fst ` set (folder (fst (get_urls ?w)))"
    using get_urls_deletion [OF a b c1 d1, THEN conjunct1] by simp
  have e2: "''locked.url'' \<in> fst ` set (folder (fst (get_urls ?w)))"
    using get_urls_deletion [OF a b c2 d2, THEN conjunct1] by simp
  have n1: "file_urls ''blank.url'' (File (Inr '' \<newline>'') None) = []"
    using get_urls_deletion [OF a b c1 d1, THEN conjunct2, THEN conjunct2, THEN conjunct2]
    by (simp add: strip_def is_space_def)
  have n2: "file_urls ''locked.url'' (File (Inl PermissionError) None) = []"
    using get_urls_deletion [OF a b c2 d2, THEN conjunct2, THEN conjunct2, THEN conjunct1]
    by simp
  have e3: "snd (get_urls ?w) = Inr [''https://archiveofourown.org/works/123'']"
    by (rule get_urls_deletion [OF a b c1 d1, THEN conjunct2, THEN conjunct1, THEN trans])
       (simp add: glob_url_def n1 n2 file_urls_eq strip_def is_space_def)
  show ?thesis using e1 e2 e3 by blast
qed

text \<open>
  C5. In a folder whose \<^verbatim>\<open>.url\<close> files all read, are non-empty after stripping and
  unlink without error, one call of \<^verbatim>\<open>get_urls\<close> returns as many URLs as there are
  \<^verbatim>\<open>.url\<close> files and leaves no \<^verbatim>\<open>.url\<close> file, and a second call on the folder it
  left returns the empty list.
\<close>

theorem idempotent_extraction:
  assumes "scandir_error w = None" and "distinct (map fst (folder w))"
    and "\<forall>(n, f) \<in> set (folder w). glob_url n \<longrightarrow>
           (\<exists>content. read_result f = Inr content \<and> strip content \<noteq> []) \<and> unlink_error f = None"
  shows "(\<exists>urls. snd (get_urls w) = Inr urls
             \<and> length urls = length (filter glob_url (map fst (folder w))))
     \<and> filter glob_url (map fst (folder (fst (get_urls w)))) = []
     \<and> snd (get_urls (fst (get_urls w))) = Inr []"
proof -
  define es where "es = filter (\<lambda>(n, f). glob_url n) (folder w)"
  define w1 where "w1 = fst (get_urls w)"
  note char = get_urls_char [OF assms(1) assms(2)]
  have one: "\<And>x. x \<in> set es \<Longrightarrow> length ((\<lambda>(n, f). file_urls n f) x) = 1"
    using assms(3) by (auto simp add: es_def file_urls_eq)
  have len: "length (concat (map (\<lambda>(n, f). file_urls n f) es)) = length es"
    by (rule length_concat_singletons) (rule one)
  have names: "length es = length (filter glob_url (map fst (folder w)))"
    by (simp add: es_def filter_map comp_def case_prod_unfold)
  have urls: "snd (get_urls w) = Inr (concat (map (\<lambda>(n, f). file_urls n f) es))"
    by (simp add: char es_def)
  have first: "\<exists>urls. snd (get_urls w) = Inr urls
             \<and> length urls = length (filter glob_url (map fst (folder w)))"
    using urls len names by simp
  have gone: "\<And>n f. (n, f) \<in> set (folder w) \<Longrightarrow> glob_url n \<Longrightarrow> \<not> file_stays n f"
    using assms(3) by (auto simp add: file_stays_iff)
  have left: "folder w1 = filter (\<lambda>(n, f). \<not> glob_url n) (folder w)"
    using gone by (auto simp add: w1_def char intro!: filter_cong)
  have second: "filter glob_url (map fst (folder w1)) = []"
    unfolding left by (rule no_url_names_left)
  have s1: "scandir_error w1 = None" using assms(1) by (simp add: w1_def char)
  have d1: "distinct (map fst (folder w1))"
    unfolding left using assms(2) by (rule distinct_map_filter)
  have none: "filter (\<lambda>(n, f). glob_url n) (folder w1) = []"
    unfolding left by (induction "folder w") (auto simp add: filter_empty_conv)
  have third: "snd (get_urls w1) = Inr []"
    by (simp add: get_urls_char [OF s1 d1] none)
  show ?thesis using first second third unfolding w1_def by blast
qed

theorem idempotent_extraction_witness:
  "(\<exists>urls. snd (get_urls
        \<lparr>scandir_error = None,
         folder = [(''a.url'', File (Inr ''https://archiveofourown.org/works/123'') None),
                   (''notes.txt'', File (Inr ''keep'') None),
                   (''b.url'', File (Inr ''https://fanfiction.net/s/456\<newline>'') None)],
         trace = []\<rparr>) = Inr urls \<and> length urls = 2)
   \<and> filter glob_url (map fst (folder (fst (get_urls
        \<lparr>scandir_error = None,
         folder = [(''a.url'', File (Inr ''https://archiveofourown.org/works/123'') None),
                   (''notes.txt'', File (Inr ''keep'') None),
                   (''b.url'', File (Inr ''https://fanfiction.net/s/456\<newline>'') None)],
         trace = []\<rparr>)))) = []
   \<and> snd (get_urls (fst (get_urls
        \<lparr>scandir_error = None,
         folder = [(''a.url'', File (Inr ''https://archiveofourown.org/works/123'') None),
                   (''notes.txt'', File (Inr ''keep'') None),
                   (''b.url'', File (Inr ''https://fanfiction.net/s/456\<newline>'') None)],
         trace = []\<rparr>))) = Inr []"
proof -
  let ?w = "\<lparr>scandir_error = None,
         folder = [(''a.url'', File (Inr ''https://archiveofourown.org/works/123'') None),
                   (''notes.txt'', File (Inr ''keep'') None),
                   (''b.url'', File (Inr ''https://fanfiction.net/s/456\<newline>'') None)],
         trace = []\<rparr>"
  have a: "scandir_error ?w = None" by simp
  have b: "distinct (map fst (folder ?w))" by simp
  have c: "\<forall>(n, f) \<in> set (folder ?w). glob_url n \<longrightarrow>
           (\<exists>content. read_result f = Inr content \<and> strip content \<noteq> []) \<and> unlink_error f = None"
    by (simp add: glob_url_def strip_def is_space_def)
  have d: "length (filter glob_url (map fst (folder ?w))) = 2" by (simp add: glob_url_def)
  show ?thesis using idempotent_extraction [OF a b c] unfolding d by blast
qed

text \<open>
  C6. Neither loop is left early. \<^verbatim>\<open>get_urls\<close> returns a list, and what it does to
  the folder, the trace and the list is, file by file in scan order, what processing
  that file alone does, whether or not reading or unlinking another file raised. The
  loop over the URLs ends without an exception, and its events are, URL by URL in batch
  order, the events of that URL processed alone, whether or not classifying or
  dispatching another URL raised.
\<close>

theorem fault_isolation:
  assumes "scandir_error w = None" and "distinct (map fst (folder w))"
  shows "get_urls w =
       (w\<lparr>folder := filter (\<lambda>(n, f). glob_url n \<longrightarrow> file_stays n f) (folder w),
          trace := trace w @ concat (map (\<lambda>(n, f). file_events n f) (filter (\<lambda>(n, f). glob_url n) (folder w)))\<rparr>,
        Inr (concat (map (\<lambda>(n, f). file_urls n f) (filter (\<lambda>(n, f). glob_url n) (folder w)))))
     \<and> for_urls c fi ni qs us w' =
       (w'\<lparr>trace := trace w' @ concat (map (url_events c fi ni qs) us)\<rparr>, None)"
  using get_urls_char [OF assms] for_urls_trace [of c fi ni qs us w'] by blast

theorem fault_isolation_witness:
  "get_urls
        \<lparr>scandir_error = None,
         folder = [(''a.url'', File (Inr ''https://archiveofourown.org/works/123'') None),
                   (''locked.url'', File (Inl PermissionError) None),
                   (''b.url'', File (Inr ''https://fanfiction.net/s/456'') None)],
         trace = []\<rparr> =
     (\<lparr>scandir_error = None,
        folder = [(''locked.url'', File (Inl PermissionError) None)],
        trace = [LogDebug (FoundURL ''a.url'' ''https://archiveofourown.org/works/123''),
                 LogDebug (RemovedFile ''a.url''),
                 LogDebug (ErrorProcessingFile ''locked.url'' PermissionError),
                 LogDebug (FoundURL ''b.url'' ''https://fanfiction.net/s/456''),
                 LogDebug (RemovedFile ''b.url'')]\<rparr>,
      Inr [''https://archiveofourown.org/works/123'', ''https://fanfiction.net/s/456''])
   \<and> for_urls (\<lambda>x. if x = ''not a url'' then Inl (ValueError ''unparseable'') else Inr \<lparr>url = x, site = ''other''\<rparr>)
        \<lparr>folder_path = ''/watch'', sleep_time = 60, ffnet_disable = False\<rparr> None [''other'' \<mapsto> Queue 2 None]
        [''not a url'', ''https://fanfiction.net/s/456'']
        \<lparr>scandir_error = None, folder = [], trace = []\<rparr> =
     (\<lparr>scandir_error = None, folder = [],
        trace = [LogDebug (ErrorProcessingURL ''not a url'' (ValueError ''unparseable'')),
                 LogDebug (IdentifiedSite ''https://fanfiction.net/s/456'' ''other''),
                 QueuePut 2 \<lparr>url = ''https://fanfiction.net/s/456'', site = ''other''\<rparr>,
                 Log (QueuedURL ''other'' ''https://fanfiction.net/s/456'')]\<rparr>, None)"
proof -
  let ?w = "\<lparr>scandir_error = None,
         folder = [(''a.url'', File (Inr ''https://archiveofourown.org/works/123'') None),
                   (''locked.url'', File (Inl PermissionError) None),
                   (''b.url'', File (Inr ''https://fanfiction.net/s/456'') None)],
         trace = []\<rparr>"
  have a: "scandir_error ?w = None" by simp
  have b: "distinct (map fst (folder ?w))" by simp
  have files: "get_urls ?w =
     (\<lparr>scandir_error = None,
        folder = [(''locked.url'', File (Inl PermissionError) None)],
        trace = [LogDebug (FoundURL ''a.url'' ''https://archiveofourown.org/works/123''),
                 LogDebug (RemovedFile ''a.url''),
                 LogDebug (ErrorProcessingFile ''locked.url'' PermissionError),
                 LogDebug (FoundURL ''b.url'' ''https://fanfiction.net/s/456''),
                 LogDebug (RemovedFile ''b.url'')]\<rparr>,
      Inr [''https://archiveofourown.org/works/123'', ''https://fanfiction.net/s/456''])"
    by (rule fault_isolation [OF a b, THEN conjunct1, THEN trans])
       (simp add: glob_url_def file_stays_iff file_urls_eq file_events_eq strip_def is_space_def)
  have items: "for_urls (\<lambda>x. if x = ''not a url'' then Inl (ValueError ''unparseable'') else Inr \<lparr>url = x, site = ''other''\<rparr>)
        \<lparr>folder_path = ''/watch'', sleep_time = 60, ffnet_disable = False\<rparr> None [''other'' \<mapsto> Queue 2 None]
        [''not a url'', ''https://fanfiction.net/s/456'']
        \<lparr>scandir_error = None, folder = [], trace = []\<rparr> =
     (\<lparr>scandir_error = None, folder = [],
        trace = [LogDebug (ErrorProcessingURL ''not a url'' (ValueError ''unparseable'')),
                 LogDebug (IdentifiedSite ''https://fanfiction.net/s/456'' ''other''),
                 QueuePut 2 \<lparr>url = ''https://fanfiction.net/s/456'', site = ''other''\<rparr>,
                 Log (QueuedURL ''other'' ''https://fanfiction.net/s/456'')]\<rparr>, None)"
    by (rule fault_isolation [OF a b, THEN conjunct2, THEN trans])
       (simp add: url_events_def dispatch_defs dict_get_def)
  show ?thesis using files items by blast
qed

section \<open>The loop\<close>

text \<open>
  C7. The only exception that can leave a pass of the loop is the one \<^verbatim>\<open>time.sleep\<close>
  raises: whatever the scan, the files, the classifier, the notifier and the queues do,
  a pass ends with the outcome of the sleep. When \<^verbatim>\<open>time.sleep\<close> accepts the
  configured \<^verbatim>\<open>sleep_time\<close>: every pass ends with the sleep; a pass whose \<^verbatim>\<open>get_urls\<close>
  raises logs the failure, handles no item and sleeps; a pass whose scan succeeds
  handles every file and then every URL of the batch, each as if alone, and sleeps; an
  exception that leaves the \<^verbatim>\<open>try\<close> block of an item is logged by the handler of that
  item and goes no further; and after any number \<open>n\<close> of passes the loop is still
  running and has slept \<open>n\<close> times.
\<close>

theorem loop_never_exits:
  "snd (cycle c ps ext fi ni qs w) =
     (if sleep_time fi < 0 then Some (ValueError ''sleep length must be non-negative'')
      else ps (sleep_time fi))
   \<and> (0 \<le> sleep_time fi \<and> ps (sleep_time fi) = None \<longrightarrow>
        last (trace (fst (cycle c ps ext fi ni qs w))) = Sleep (sleep_time fi)
      \<and> (scandir_error w = Some e \<longrightarrow>
           trace (fst (cycle c ps ext fi ni qs w)) =
             trace w @ [LogDebug (ErrorInLoop e), Sleep (sleep_time fi)])
      \<and> (scandir_error w = None \<and> distinct (map fst (folder w)) \<longrightarrow>
           trace (fst (cycle c ps ext fi ni qs w)) =
             trace w
             @ concat (map (\<lambda>(n, f). file_events n f) (filter (\<lambda>(n, f). glob_url n) (folder w)))
             @ concat (map (url_events c fi ni qs)
                 (concat (map (\<lambda>(n, f). file_urls n f) (filter (\<lambda>(n, f). glob_url n) (folder w)))))
             @ [Sleep (sleep_time fi)])
      \<and> (snd (url_try c fi ni qs u w) = Some e \<longrightarrow>
           url_iteration c fi ni qs u w =
             (ff_log_debug (ErrorProcessingURL u e) (fst (url_try c fi ni qs u w)), None))
      \<and> snd (folder_watcher n c ps ext fi ni qs w) = None
      \<and> length (filter is_sleep (trace (fst (folder_watcher n c ps ext fi ni qs w)))) =
          length (filter is_sleep (trace w)) + n)"
proof -
  have exc: "snd (cycle c ps ext fi ni qs w) =
     (if sleep_time fi < 0 then Some (ValueError ''sleep length must be non-negative'')
      else ps (sleep_time fi))"
    by (rule cycle_exception)
  have rest: "0 \<le> sleep_time fi \<and> ps (sleep_time fi) = None \<longrightarrow>
        last (trace (fst (cycle c ps ext fi ni qs w))) = Sleep (sleep_time fi)
      \<and> (scandir_error w = Some e \<longrightarrow>
           trace (fst (cycle c ps ext fi ni qs w)) =
             trace w @ [LogDebug (ErrorInLoop e), Sleep (sleep_time fi)])
      \<and> (scandir_error w = None \<and> distinct (map fst (folder w)) \<longrightarrow>
           trace (fst (cycle c ps ext fi ni qs w)) =
             trace w
             @ concat (map (\<lambda>(n, f). file_events n f) (filter (\<lambda>(n, f). glob_url n) (folder w)))
             @ concat (map (url_events c fi ni qs)
                 (concat (map (\<lambda>(n, f). file_urls n f) (filter (\<lambda>(n, f). glob_url n) (folder w)))))
             @ [Sleep (sleep_time fi)])
      \<and> (snd (url_try c fi ni qs u w) = Some e \<longrightarrow>
           url_iteration c fi ni qs u w =
             (ff_log_debug (ErrorProcessingURL u e) (fst (url_try c fi ni qs u w)), None))
      \<and> snd (folder_watcher n c ps ext fi ni qs w) = None
      \<and> length (filter is_sleep (trace (fst (folder_watcher n c ps ext fi ni qs w)))) =
          length (filter is_sleep (trace w)) + n"
  proof
    assume "0 \<le> sleep_time fi \<and> ps (sleep_time fi) = None"
    then have a: "0 \<le> sleep_time fi" and b: "ps (sleep_time fi) = None" by simp_all
    have sleeps: "last (trace (fst (cycle c ps ext fi ni qs w))) = Sleep (sleep_time fi)"
      by (rule cycle_runs(1) [where fi = fi and ps = ps, OF a b])
    have scan: "scandir_error w = Some e \<longrightarrow>
          trace (fst (cycle c ps ext fi ni qs w)) =
            trace w @ [LogDebug (ErrorInLoop e), Sleep (sleep_time fi)]"
      by (simp add: cycle_trace [where fi = fi and ps = ps, OF a b] cycle_try_scan_error)
    have batch: "scandir_error w = None \<and> distinct (map fst (folder w)) \<longrightarrow>
           trace (fst (cycle c ps ext fi ni qs w)) =
             trace w
             @ concat (map (\<lambda>(n, f). file_events n f) (filter (\<lambda>(n, f). glob_url n) (folder w)))
             @ concat (map (url_events c fi ni qs)
                 (concat (map (\<lambda>(n, f). file_urls n f) (filter (\<lambda>(n, f). glob_url n) (folder w)))))
             @ [Sleep (sleep_time fi)]"
      by (simp add: cycle_trace [where fi = fi and ps = ps, OF a b] cycle_try_ok)
    have item: "snd (url_try c fi ni qs u w) = Some e \<longrightarrow>
           url_iteration c fi ni qs u w =
             (ff_log_debug (ErrorProcessingURL u e) (fst (url_try c fi ni qs u w)), None)"
      using url_iteration_handler by blast
    define w0 where "w0 = ff_log (FFNetProcessing (ffnet_disable fi))
         (ff_log (CheckInterval (sleep_time fi))
           (ff_log (StartingFolderWatcher (folder_path fi)) w))"
    have start: "filter is_sleep (trace w0) = filter is_sleep (trace w)"
      by (simp add: w0_def ff_log_def emit_def)
    have loop: "snd (folder_watcher n c ps ext fi ni qs w) = None
       \<and> length (filter is_sleep (trace (fst (folder_watcher n c ps ext fi ni qs w)))) =
           length (filter is_sleep (trace w)) + n"
      using while_true_runs [where fi = fi and ps = ps and n = n and c = c and ext = ext and ni = ni and qs = qs and w = w0, OF a b] start
      by (simp add: folder_watcher_def flip: w0_def)
    show "last (trace (fst (cycle c ps ext fi ni qs w))) = Sleep (sleep_time fi)
      \<and> (scandir_error w = Some e \<longrightarrow>
           trace (fst (cycle c ps ext fi ni qs w)) =
             trace w @ [LogDebug (ErrorInLoop e), Sleep (sleep_time fi)])
      \<and> (scandir_error w = None \<and> distinct (map fst (folder w)) \<longrightarrow>
           trace (fst (cycle c ps ext fi ni qs w)) =
             trace w
             @ concat (map (\<lambda>(n, f). file_events n f) (filter (\<lambda>(n, f). glob_url n) (folder w)))
             @ concat (map (url_events c fi ni qs)
                 (concat (map (\<lambda>(n, f). file_urls n f) (filter (\<lambda>(n, f). glob_url n) (folder w)))))
             @ [Sleep (sleep_time fi)])
      \<and> (snd (url_try c fi ni qs u w) = Some e \<longrightarrow>
           url_iteration c fi ni qs u w =
             (ff_log_debug (ErrorProcessingURL u e) (fst (url_try c fi ni qs u w)), None))
      \<and> snd (folder_watcher n c ps ext fi ni qs w) = None
      \<and> length (filter is_sleep (trace (fst (folder_watcher n c ps ext fi ni qs w)))) =
          length (filter is_sleep (trace w)) + n"
      using sleeps scan batch item loop by blast
  qed
  show ?thesis using exc rest by blast
qed

theorem loop_never_exits_witness:
  "snd (cycle (\<lambda>x. if x = ''not a url'' then Inl (ValueError ''unparseable'') else Inr \<lparr>url = x, site = ''other''\<rparr>) (\<lambda>secs. if 9223372036 < secs then Some OverflowError else None) (\<lambda>x. x) \<lparr>folder_path = ''/watch'', sleep_time = 60, ffnet_disable = False\<rparr> None [''other'' \<mapsto> Queue 2 None]
        \<lparr>scandir_error = None,
           folder = [(''a.url'', File (Inr ''https://archiveofourown.org/works/123'') None),
                     (''locked.url'', File (Inl PermissionError) None),
                     (''b.url'', File (Inr ''not a url'') None)],
           trace = []\<rparr>) = None
   \<and> trace (fst (cycle (\<lambda>x. if x = ''not a url'' then Inl (ValueError ''unparseable'') else Inr \<lparr>url = x, site = ''other''\<rparr>) (\<lambda>secs. if 9223372036 < secs then Some OverflowError else None) (\<lambda>x. x) \<lparr>folder_path = ''/watch'', sleep_time = 60, ffnet_disable = False\<rparr> None [''other'' \<mapsto> Queue 2 None]
        \<lparr>scandir_error = None,
           folder = [(''a.url'', File (Inr ''https://archiveofourown.org/works/123'') None),
                     (''locked.url'', File (Inl PermissionError) None),
                     (''b.url'', File (Inr ''not a url'') None)],
           trace = []\<rparr>)) =
       [LogDebug (FoundURL ''a.url'' ''https://archiveofourown.org/works/123''),
        LogDebug (RemovedFile ''a.url''),
        LogDebug (ErrorProcessingFile ''locked.url'' PermissionError),
        LogDebug (FoundURL ''b.url'' ''not a url''),
        LogDebug (RemovedFile ''b.url''),
        LogDebug (IdentifiedSite ''https://archiveofourown.org/works/123'' ''other''),
        QueuePut 2 \<lparr>url = ''https://archiveofourown.org/works/123'', site = ''other''\<rparr>,
        Log (QueuedURL ''other'' ''https://archiveofourown.org/works/123''),
        LogDebug (ErrorProcessingURL ''not a url'' (ValueError ''unparseable'')),
        Sleep 60]
   \<and> trace (fst (cycle (\<lambda>x. if x = ''not a url'' then Inl (ValueError ''unparseable'') else Inr \<lparr>url = x, site = ''other''\<rparr>) (\<lambda>secs. if 9223372036 < secs then Some OverflowError else None) (\<lambda>x. x) \<lparr>folder_path = ''/watch'', sleep_time = 60, ffnet_disable = False\<rparr> None [''other'' \<mapsto> Queue 2 None]
        \<lparr>scandir_error = Some PermissionError, folder = [], trace = []\<rparr>)) =
       [LogDebug (ErrorInLoop PermissionError), Sleep 60]
   \<and> url_iteration (\<lambda>x. if x = ''not a url'' then Inl (ValueError ''unparseable'') else Inr \<lparr>url = x, site = ''other''\<rparr>) \<lparr>folder_path = ''/watch'', sleep_time = 60, ffnet_disable = False\<rparr> None [''other'' \<mapsto> Queue 2 None] ''not a url''
        \<lparr>scandir_error = Some PermissionError, folder = [], trace = []\<rparr> =
       (\<lparr>scandir_error = Some PermissionError, folder = [],
          trace = [LogDebug (ErrorProcessingURL ''not a url'' (ValueError ''unparseable''))]\<rparr>, None)
   \<and> snd (folder_watcher 3 (\<lambda>x. if x = ''not a url'' then Inl (ValueError ''unparseable'') else Inr \<lparr>url = x, site = ''other''\<rparr>) (\<lambda>secs. if 9223372036 < secs then Some OverflowError else None) (\<lambda>x. x) \<lparr>folder_path = ''/watch'', sleep_time = 60, ffnet_disable = False\<rparr> None [''other'' \<mapsto> Queue 2 None]
        \<lparr>scandir_error = None,
           folder = [(''a.url'', File (Inr ''https://archiveofourown.org/works/123'') None),
                     (''locked.url'', File (Inl PermissionError) None),
                     (''b.url'', File (Inr ''not a url'') None)],
           trace = []\<rparr>) = None
   \<and> length (filter is_sleep (trace (fst (folder_watcher 3 (\<lambda>x. if x = ''not a url'' then Inl (ValueError ''unparseable'') else Inr \<lparr>url = x, site = ''other''\<rparr>) (\<lambda>secs. if 9223372036 < secs then Some OverflowError else None) (\<lambda>x. x) \<lparr>folder_path = ''/watch'', sleep_time = 60, ffnet_disable = False\<rparr> None [''other'' \<mapsto> Queue 2 None]
        \<lparr>scandir_error = None,
           folder = [(''a.url'', File (Inr ''https://archiveofourown.org/works/123'') None),
                     (''locked.url'', File (Inl PermissionError) None),
                     (''b.url'', File (Inr ''not a url'') None)],
           trace = []\<rparr>)))) = 3"
proof -
  let ?c = "(\<lambda>x. if x = ''not a url'' then Inl (ValueError ''unparseable'') else Inr \<lparr>url = x, site = ''other''\<rparr>)"
  let ?ps = "(\<lambda>secs. if 9223372036 < secs then Some OverflowError else None)"
  let ?fi = "\<lparr>folder_path = ''/watch'', sleep_time = 60, ffnet_disable = False\<rparr>"
  let ?qs = "[''other'' \<mapsto> Queue 2 None]"
  let ?w = "\<lparr>scandir_error = None,
           folder = [(''a.url'', File (Inr ''https://archiveofourown.org/works/123'') None),
                     (''locked.url'', File (Inl PermissionError) None),
                     (''b.url'', File (Inr ''not a url'') None)],
           trace = []\<rparr>"
  let ?we = "\<lparr>scandir_error = Some PermissionError, folder = [], trace = []\<rparr>"
  have a: "0 \<le> sleep_time ?fi \<and> ?ps (sleep_time ?fi) = None" by simp
  note run = loop_never_exits [where c = ?c and ps = ?ps and ext = "\<lambda>x. x" and fi = ?fi
      and ni = None and qs = ?qs and w = ?w and n = 3 and u = "''not a url''"
      and e = "ValueError ''unparseable''"]
  note err = loop_never_exits [where c = ?c and ps = ?ps and ext = "\<lambda>x. x" and fi = ?fi
      and ni = None and qs = ?qs and w = ?we and n = 3 and u = "''not a url''"
      and e = PermissionError]
  note item = loop_never_exits [where c = ?c and ps = ?ps and ext = "\<lambda>x. x" and fi = ?fi
      and ni = None and qs = ?qs and w = ?we and n = 3 and u = "''not a url''"
      and e = "ValueError ''unparseable''"]
  have p1: "snd (cycle ?c ?ps (\<lambda>x. x) ?fi None ?qs ?w) = None"
    using run [THEN conjunct1] by simp
  have d: "scandir_error ?w = None \<and> distinct (map fst (folder ?w))" by simp
  have p2: "trace (fst (cycle ?c ?ps (\<lambda>x. x) ?fi None ?qs ?w)) =
       [LogDebug (FoundURL ''a.url'' ''https://archiveofourown.org/works/123''),
        LogDebug (RemovedFile ''a.url''),
        LogDebug (ErrorProcessingFile ''locked.url'' PermissionError),
        LogDebug (FoundURL ''b.url'' ''not a url''),
        LogDebug (RemovedFile ''b.url''),
        LogDebug (IdentifiedSite ''https://archiveofourown.org/works/123'' ''other''),
        QueuePut 2 \<lparr>url = ''https://archiveofourown.org/works/123'', site = ''other''\<rparr>,
        Log (QueuedURL ''other'' ''https://archiveofourown.org/works/123''),
        LogDebug (ErrorProcessingURL ''not a url'' (ValueError ''unparseable'')),
        Sleep 60]"
    by (rule run [THEN conjunct2, rule_format, OF a, THEN conjunct2, THEN conjunct2,
          THEN conjunct1, rule_format, OF d, THEN trans])
       (simp add: glob_url_def file_urls_eq file_events_eq strip_def is_space_def
          url_events_def dispatch_defs dict_get_def)
  have p3: "trace (fst (cycle ?c ?ps (\<lambda>x. x) ?fi None ?qs ?we)) =
       [LogDebug (ErrorInLoop PermissionError), Sleep 60]"
    using err [THEN conjunct2, rule_format, OF a, THEN conjunct2, THEN conjunct1] by simp
  have t: "snd (url_try ?c ?fi None ?qs ''not a url'' ?we) = Some (ValueError ''unparseable'')"
    by (simp add: url_try_def)
  have p4: "url_iteration ?c ?fi None ?qs ''not a url'' ?we =
       (\<lparr>scandir_error = Some PermissionError, folder = [],
          trace = [LogDebug (ErrorProcessingURL ''not a url'' (ValueError ''unparseable''))]\<rparr>, None)"
    by (rule item [THEN conjunct2, rule_format, OF a, THEN conjunct2, THEN conjunct2,
          THEN conjunct2, THEN conjunct1, rule_format, OF t, THEN trans])
       (simp add: url_try_def ff_log_debug_def emit_def)
  have p56: "snd (folder_watcher 3 ?c ?ps (\<lambda>x. x) ?fi None ?qs ?w) = None
     \<and> length (filter is_sleep (trace (fst (folder_watcher 3 ?c ?ps (\<lambda>x. x) ?fi None ?qs ?w)))) = 3"
    using run [THEN conjunct2, rule_format, OF a, THEN conjunct2, THEN conjunct2,
          THEN conjunct2, THEN conjunct2] by simp
  show ?thesis using p1 p2 p3 p4 p56 by blast
qed

section \<open>Construction\<close>




end
